theory Spec2Isabelle
  imports Main "HOL-Library.Sublist"
begin

section \<open>JavaScript values used by the use cases\<close>

text \<open>
  Strings are \<^typ>\<open>string\<close>; the helpers below are the methods of
  \<^verbatim>\<open>String.prototype\<close> the sources call. Characters are bytes, so
  \<^verbatim>\<open>toLowerCase\<close> and \<^verbatim>\<open>trim\<close> are the ASCII parts of the
  JavaScript methods.
\<close>

definition startsWith :: "string \<Rightarrow> string \<Rightarrow> bool" where
  "startsWith s p = prefix p s"

fun includes_str :: "string \<Rightarrow> string \<Rightarrow> bool" where
  "includes_str [] w = (w = [])"
| "includes_str (c # cs) w = (prefix w (c # cs) \<or> includes_str cs w)"

definition isUpper :: "char \<Rightarrow> bool" where
  "isUpper c = (65 \<le> (of_char c :: nat) \<and> (of_char c :: nat) \<le> 90)"

definition lowerChar :: "char \<Rightarrow> char" where
  "lowerChar c = (if isUpper c then char_of ((of_char c :: nat) + 32) else c)"

definition toLowerCase :: "string \<Rightarrow> string" where
  "toLowerCase s = map lowerChar s"

definition isSpace :: "char \<Rightarrow> bool" where
  "isSpace c = ((of_char c :: nat) \<in> {9, 10, 11, 12, 13, 32})"

definition trim :: "string \<Rightarrow> string" where
  "trim s = rev (dropWhile isSpace (rev (dropWhile isSpace s)))"

definition isDigit :: "char \<Rightarrow> bool" where
  "isDigit c = (48 \<le> (of_char c :: nat) \<and> (of_char c :: nat) \<le> 57)"

text \<open>Template interpolation of an integral number: its decimal digits.\<close>

definition digitChar :: "nat \<Rightarrow> char" where
  "digitChar d = char_of (48 + d)"

fun natToString :: "nat \<Rightarrow> string" where
  "natToString n =
     (if n < 10 then [digitChar n] else natToString (n div 10) @ [digitChar (n mod 10)])"

declare natToString.simps [simp del]

definition numberToString :: "int \<Rightarrow> string" where
  "numberToString i = (if i < 0 then CHR ''-'' # natToString (nat (- i)) else natToString (nat i))"

text \<open>
  A thrown value is \<^verbatim>\<open>undefined\<close>, \<^verbatim>\<open>null\<close>, or a value with an optional
  HTTP \<^verbatim>\<open>status\<close>, a \<^verbatim>\<open>message\<close> and a string form (what
  \<^verbatim>\<open>toString()\<close> and template interpolation give).
\<close>

datatype thrown =
    ThrownUndefined
  | ThrownNull
  | ThrownValue (http_status: "int option") (message: string) (string_form: string)

text \<open>\<^verbatim>\<open>error?.toString() ?? 'Unknown error'\<close>\<close>

fun toStringOrUnknown :: "thrown \<Rightarrow> string" where
  "toStringOrUnknown ThrownUndefined = ''Unknown error''"
| "toStringOrUnknown ThrownNull = ''Unknown error''"
| "toStringOrUnknown (ThrownValue st m s) = s"

text \<open>\<^verbatim>\<open>`${error}`\<close>\<close>

fun interpolate :: "thrown \<Rightarrow> string" where
  "interpolate ThrownUndefined = ''undefined''"
| "interpolate ThrownNull = ''null''"
| "interpolate (ThrownValue st m s) = s"

text \<open>\<^verbatim>\<open>new Error(msg)\<close>, optionally with a \<^verbatim>\<open>status\<close> assigned.\<close>

definition newError :: "int option \<Rightarrow> string \<Rightarrow> thrown" where
  "newError st msg = ThrownValue st msg (if msg = [] then ''Error'' else ''Error: '' @ msg)"

text \<open>A call either returns a value (\<open>Inr\<close>) or throws (\<open>Inl\<close>).\<close>

type_synonym 'a outcome = "thrown + 'a"

section \<open>\<^verbatim>\<open>ProjectDetail\<close> (src/data/model/project\_detail.ts)\<close>

text \<open>The constructor argument \<^verbatim>\<open>data\<close>: every field may be absent.\<close>

record project_data =
  data_id :: "string option"
  data_title :: "string option"
  data_type :: "string option"
  data_owner :: "string option"
  data_url :: "string option"
  data_number :: "int option"

record ProjectDetail =
  project_id :: string
  project_title :: string
  project_type :: string
  project_owner :: string
  project_url :: string
  project_number :: int

text \<open>\<^verbatim>\<open>x ?? d\<close>\<close>

definition orElse :: "'a option \<Rightarrow> 'a \<Rightarrow> 'a" where
  "orElse x d = (case x of None \<Rightarrow> d | Some v \<Rightarrow> v)"

definition newProjectDetail :: "project_data \<Rightarrow> ProjectDetail" where
  "newProjectDetail data =
     \<lparr> project_id = orElse (data_id data) '''',
       project_title = orElse (data_title data) '''',
       project_type = orElse (data_type data) '''',
       project_owner = orElse (data_owner data) '''',
       project_url = orElse (data_url data) '''',
       project_number = orElse (data_number data) (- 1) \<rparr>"

text \<open>A data object with no field set, as in \<^verbatim>\<open>new ProjectDetail({})\<close>.\<close>

definition emptyData :: project_data where
  "emptyData =
     \<lparr> data_id = None, data_title = None, data_type = None,
       data_owner = None, data_url = None, data_number = None \<rparr>"

text \<open>
  The getter \<^verbatim>\<open>publicUrl\<close>. The field \<^verbatim>\<open>url\<close> is a string, so
  \<^verbatim>\<open>typeof this.url === 'string'\<close> holds and \<^verbatim>\<open>this.url\<close> is truthy
  exactly when it is not empty.
\<close>

definition publicUrl :: "ProjectDetail \<Rightarrow> string" where
  "publicUrl p =
     (if project_url p \<noteq> [] \<and> startsWith (project_url p) ''https://'' then project_url p
      else
        let path = (if project_type p = ''organization'' then ''orgs'' else ''users'')
        in ''https://github.com/'' @ path @ ''/'' @ project_owner p @ ''/projects/''
             @ numberToString (project_number p))"

section \<open>Results, the execution parameter and the project-board API\<close>

text \<open>
  The class \<^verbatim>\<open>Result\<close> is not among the sources: a result is the object that
  \<^verbatim>\<open>new Result({...})\<close> receives. A field that the object literal leaves out, or
  sets to \<^verbatim>\<open>undefined\<close>, is \<open>None\<close>.
\<close>

record Result =
  result_id :: string
  success :: bool
  executed :: bool
  steps :: "string list option"
  errors :: "string list option"

text \<open>The fields of \<^verbatim>\<open>param.labels\<close> that the priority use cases read.\<close>

record Labels =
  priorityLabelOnIssue :: string
  priorityLabelOnIssueProcessable :: bool
  priorityHigh :: string
  priorityMedium :: string
  priorityLow :: string

text \<open>
  The fields of \<^verbatim>\<open>Execution\<close> the use cases read:
  \<open>projects\<close> is \<^verbatim>\<open>param.project.getProjects()\<close>,
  \<open>projectColumnIssueInProgress\<close> is
  \<^verbatim>\<open>param.project.getProjectColumnIssueInProgress()\<close>,
  \<open>pullRequest_number\<close> is \<^verbatim>\<open>param.pullRequest.number\<close> and
  \<open>token\<close> is \<^verbatim>\<open>param.tokens.token\<close>.
\<close>

record Execution =
  owner :: string
  repo :: string
  issueNumber :: int
  pullRequest_number :: int
  token :: string
  labels :: Labels
  projects :: "ProjectDetail list"
  projectColumnIssueInProgress :: string

text \<open>
  \<^verbatim>\<open>ProjectRepository\<close> is the remote board API. Its two methods take the remote
  state \<open>'s\<close> and return an outcome and the new state. Every call is recorded, with its
  arguments and its outcome, the way the mocks of the test suites record them.
\<close>

record 's ProjectRepository =
  setTaskPriority ::
    "ProjectDetail \<Rightarrow> string \<Rightarrow> string \<Rightarrow> int \<Rightarrow> string \<Rightarrow> string \<Rightarrow> 's \<Rightarrow> bool outcome \<times> 's"
  moveIssueToColumn ::
    "ProjectDetail \<Rightarrow> string \<Rightarrow> string \<Rightarrow> int \<Rightarrow> string \<Rightarrow> string \<Rightarrow> 's \<Rightarrow> bool outcome \<times> 's"

datatype board_call =
    SetTaskPriority ProjectDetail string string int string string
  | MoveIssueToColumn ProjectDetail string string int string string

type_synonym board_event = "board_call \<times> bool outcome"

type_synonym 's board_state = "'s \<times> board_event list"

definition callSetTaskPriority ::
  "'s ProjectRepository \<Rightarrow> ProjectDetail \<Rightarrow> string \<Rightarrow> string \<Rightarrow> int \<Rightarrow> string \<Rightarrow> string
     \<Rightarrow> 's board_state \<Rightarrow> bool outcome \<times> 's board_state" where
  "callSetTaskPriority r project ow rp n label tk st =
     (case setTaskPriority r project ow rp n label tk (fst st) of
        (out, s') \<Rightarrow> (out, (s', snd st @ [(SetTaskPriority project ow rp n label tk, out)])))"

definition callMoveIssueToColumn ::
  "'s ProjectRepository \<Rightarrow> ProjectDetail \<Rightarrow> string \<Rightarrow> string \<Rightarrow> int \<Rightarrow> string \<Rightarrow> string
     \<Rightarrow> 's board_state \<Rightarrow> bool outcome \<times> 's board_state" where
  "callMoveIssueToColumn r project ow rp n column tk st =
     (case moveIssueToColumn r project ow rp n column tk (fst st) of
        (out, s') \<Rightarrow> (out, (s', snd st @ [(MoveIssueToColumn project ow rp n column tk, out)])))"

section \<open>\<^verbatim>\<open>CheckPriorityPullRequestSizeUseCase\<close> (src/unnamed/part\_000)\<close>

definition taskId_CheckPriorityPullRequestSize :: string where
  "taskId_CheckPriorityPullRequestSize = ''CheckPriorityPullRequestSizeUseCase''"

text \<open>
  The \<^verbatim>\<open>for\<close> loop over the projects. It returns the array \<^verbatim>\<open>result\<close> as the
  loop left it, and the thrown value when a call threw (the loop stops there).
\<close>

fun setPriorityLoop ::
  "'s ProjectRepository \<Rightarrow> Execution \<Rightarrow> string \<Rightarrow> ProjectDetail list \<Rightarrow> Result list
     \<Rightarrow> 's board_state \<Rightarrow> (thrown option \<times> Result list) \<times> 's board_state" where
  "setPriorityLoop r param priorityLabel [] result st = ((None, result), st)"
| "setPriorityLoop r param priorityLabel (project # rest) result st =
     (case callSetTaskPriority r project (owner param) (repo param) (pullRequest_number param)
             priorityLabel (token param) st of
        (Inl error, st') \<Rightarrow> ((Some error, result), st')
      | (Inr success', st') \<Rightarrow>
          setPriorityLoop r param priorityLabel rest
            (if success' then
               result @ [\<lparr> result_id = taskId_CheckPriorityPullRequestSize, success = True,
                  executed = True,
                  steps = Some [''Priority set to `'' @ priorityLabel @ ''` in [''
                                  @ project_title project @ ''](''
                                  @ publicUrl project @ '').''],
                  errors = None \<rparr>]
             else result)
            st')"

text \<open>The rest of the \<^verbatim>\<open>try\<close> block once the token is known, and the \<^verbatim>\<open>catch\<close>.\<close>

definition setPriorityOrFail ::
  "'s ProjectRepository \<Rightarrow> Execution \<Rightarrow> string \<Rightarrow> 's board_state \<Rightarrow> Result list \<times> 's board_state" where
  "setPriorityOrFail r param priorityLabel st =
     (case setPriorityLoop r param priorityLabel (projects param) [] st of
        ((None, result), st') \<Rightarrow> (result, st')
      | ((Some error, result), st') \<Rightarrow>
          (result @ [\<lparr> result_id = taskId_CheckPriorityPullRequestSize, success = False,
              executed = True,
              steps = Some [''Tried to check the priority of the issue, but there was a problem.''],
              errors = Some [toStringOrUnknown error] \<rparr>], st'))"

definition invoke_CheckPriorityPullRequestSize ::
  "'s ProjectRepository \<Rightarrow> Execution \<Rightarrow> 's board_state \<Rightarrow> Result list \<times> 's board_state" where
  "invoke_CheckPriorityPullRequestSize r param st =
     (let priority = priorityLabelOnIssue (labels param) in
      if \<not> priorityLabelOnIssueProcessable (labels param) \<or> length (projects param) = 0 then
        ([\<lparr> result_id = taskId_CheckPriorityPullRequestSize, success = True, executed = False,
            steps = None, errors = None \<rparr>], st)
      else if priority = priorityHigh (labels param) then setPriorityOrFail r param ''P0'' st
      else if priority = priorityMedium (labels param) then setPriorityOrFail r param ''P1'' st
      else if priority = priorityLow (labels param) then setPriorityOrFail r param ''P2'' st
      else
        ([\<lparr> result_id = taskId_CheckPriorityPullRequestSize, success = True, executed = False,
            steps = None, errors = None \<rparr>], st))"

section \<open>\<^verbatim>\<open>MoveIssueToInProgressUseCase\<close> (src/usecase/steps/issue/move\_issue\_to\_in\_progress.ts)\<close>

definition taskId_MoveIssueToInProgress :: string where
  "taskId_MoveIssueToInProgress = ''MoveIssueToInProgressUseCase''"

fun moveLoop ::
  "'s ProjectRepository \<Rightarrow> Execution \<Rightarrow> string \<Rightarrow> ProjectDetail list \<Rightarrow> Result list
     \<Rightarrow> 's board_state \<Rightarrow> (thrown option \<times> Result list) \<times> 's board_state" where
  "moveLoop r param columnName [] result st = ((None, result), st)"
| "moveLoop r param columnName (project # rest) result st =
     (case callMoveIssueToColumn r project (owner param) (repo param) (issueNumber param)
             columnName (token param) st of
        (Inl error, st') \<Rightarrow> ((Some error, result), st')
      | (Inr success', st') \<Rightarrow>
          moveLoop r param columnName rest
            (if success' then
               result @ [\<lparr> result_id = taskId_MoveIssueToInProgress, success = True,
                  executed = True,
                  steps = Some [''Moved issue to `'' @ columnName @ ''` in [''
                                  @ project_title project @ ''](''
                                  @ publicUrl project @ '').''],
                  errors = None \<rparr>]
             else result)
            st')"

definition invoke_MoveIssueToInProgress ::
  "'s ProjectRepository \<Rightarrow> Execution \<Rightarrow> 's board_state \<Rightarrow> Result list \<times> 's board_state" where
  "invoke_MoveIssueToInProgress r param st =
     (let columnName = projectColumnIssueInProgress param in
      case moveLoop r param columnName (projects param) [] st of
        ((None, result), st') \<Rightarrow> (result, st')
      | ((Some error, result), st') \<Rightarrow>
          (result @ [\<lparr> result_id = taskId_MoveIssueToInProgress, success = False,
              executed = True,
              steps = Some [''Tried to move the issue to `'' @ columnName
                              @ ''`, but there was a problem.''],
              errors = Some [toStringOrUnknown error] \<rparr>], st'))"

section \<open>\<^verbatim>\<open>CheckPriorityIssueSizeUseCase\<close>\<close>

text \<open>
  Modelled from the spec: the class \<^verbatim>\<open>CheckPriorityIssueSizeUseCase\<close> is not among
  the sources (its test suite is). Section 4.3 of the specification: the current priority
  label is mapped to one of the tokens P0, P1, P2 by comparing it with the configured high,
  medium and low names; a label outside the configured set, disabled priority labelling, or
  no linked board short-circuit to a no-op success with \<^verbatim>\<open>executed:false\<close>;
  otherwise the board API sets the priority per linked project, one result per project, and
  a thrown error yields a single failure result rather than partial success entries.
\<close>

text \<open>Modelled from the spec: the task id is the name of the class, as in its siblings.\<close>

definition taskId_CheckPriorityIssueSize :: string where
  "taskId_CheckPriorityIssueSize = ''CheckPriorityIssueSizeUseCase''"

text \<open>
  Modelled from the spec: the mapping of the current label to a token, by comparison with
  the configured high, medium and low names (section 4.3).
\<close>

definition priorityToken :: "Labels \<Rightarrow> string option" where
  "priorityToken ls =
     (if priorityLabelOnIssue ls = priorityHigh ls then Some ''P0''
      else if priorityLabelOnIssue ls = priorityMedium ls then Some ''P1''
      else if priorityLabelOnIssue ls = priorityLow ls then Some ''P2''
      else None)"

text \<open>
  Modelled from the spec: the priority is set per linked project, one result per project;
  the loop stops at a call that throws (section 4.3).
\<close>

fun issuePriorityLoop ::
  "'s ProjectRepository \<Rightarrow> Execution \<Rightarrow> string \<Rightarrow> ProjectDetail list \<Rightarrow> Result list
     \<Rightarrow> 's board_state \<Rightarrow> (thrown option \<times> Result list) \<times> 's board_state" where
  "issuePriorityLoop r param priorityLabel [] result st = ((None, result), st)"
| "issuePriorityLoop r param priorityLabel (project # rest) result st =
     (case callSetTaskPriority r project (owner param) (repo param) (issueNumber param)
             priorityLabel (token param) st of
        (Inl error, st') \<Rightarrow> ((Some error, result), st')
      | (Inr _, st') \<Rightarrow>
          issuePriorityLoop r param priorityLabel rest
            (result @ [\<lparr> result_id = taskId_CheckPriorityIssueSize, success = True,
                executed = True,
                steps = Some [''Priority set to `'' @ priorityLabel @ ''` in [''
                                @ project_title project @ ''](''
                                @ publicUrl project @ '').''],
                errors = None \<rparr>])
            st')"

text \<open>
  Modelled from the spec: the short-circuits to the no-op success, and the single failure
  result of a thrown error, without the success entries made before it (section 4.3).
\<close>

definition invoke_CheckPriorityIssueSize ::
  "'s ProjectRepository \<Rightarrow> Execution \<Rightarrow> 's board_state \<Rightarrow> Result list \<times> 's board_state" where
  "invoke_CheckPriorityIssueSize r param st =
     (if \<not> priorityLabelOnIssueProcessable (labels param) \<or> projects param = [] then
        ([\<lparr> result_id = taskId_CheckPriorityIssueSize, success = True, executed = False,
            steps = None, errors = None \<rparr>], st)
      else
        case priorityToken (labels param) of
          None \<Rightarrow>
            ([\<lparr> result_id = taskId_CheckPriorityIssueSize, success = True, executed = False,
                steps = None, errors = None \<rparr>], st)
        | Some priorityLabel \<Rightarrow>
            (case issuePriorityLoop r param priorityLabel (projects param) [] st of
               ((None, result), st') \<Rightarrow> (result, st')
             | ((Some error, result), st') \<Rightarrow>
                 ([\<lparr> result_id = taskId_CheckPriorityIssueSize, success = False,
                     executed = True,
                     steps = Some [''Tried to check the priority of the issue, but there was a problem.''],
                     errors = Some [toStringOrUnknown error] \<rparr>], st')))"

section \<open>Reading the record of calls\<close>

definition callProject :: "board_call \<Rightarrow> ProjectDetail" where
  "callProject c =
     (case c of SetTaskPriority p _ _ _ _ _ \<Rightarrow> p | MoveIssueToColumn p _ _ _ _ _ \<Rightarrow> p)"

text \<open>The fifth argument of a call: the priority token, or the column name.\<close>

definition callLabel :: "board_call \<Rightarrow> string" where
  "callLabel c =
     (case c of SetTaskPriority _ _ _ _ l _ \<Rightarrow> l | MoveIssueToColumn _ _ _ _ l _ \<Rightarrow> l)"

definition threw :: "board_event \<Rightarrow> bool" where
  "threw ev = isl (snd ev)"

text \<open>The boards whose call returned \<^verbatim>\<open>true\<close>, in the order of the calls.\<close>

definition returnedTrue :: "board_event list \<Rightarrow> ProjectDetail list" where
  "returnedTrue log = map (callProject \<circ> fst) (filter (\<lambda>ev. snd ev = Inr True) log)"

text \<open>
  A success result for a board: \<^verbatim>\<open>success:true, executed:true\<close>, no errors, and one
  step that contains the board's title and its public URL.
\<close>

definition referencesBoard :: "Result \<Rightarrow> ProjectDetail \<Rightarrow> bool" where
  "referencesBoard res p =
     (success res \<and> executed res \<and> errors res = None
      \<and> (\<exists>step. steps res = Some [step] \<and> includes_str step (project_title p)
                  \<and> includes_str step (publicUrl p)))"

section \<open>Concrete boards and parameters\<close>

text \<open>A board API without state whose answer depends on the project only.\<close>

definition boardAnswering :: "(ProjectDetail \<Rightarrow> bool outcome) \<Rightarrow> unit ProjectRepository" where
  "boardAnswering f =
     \<lparr> setTaskPriority = (\<lambda>p ow rp n l tk s. (f p, s)),
       moveIssueToColumn = (\<lambda>p ow rp n c tk s. (f p, s)) \<rparr>"

definition boardP1 :: ProjectDetail where
  "boardP1 = newProjectDetail (emptyData\<lparr> data_id := Some ''p1'', data_title := Some ''Board'',
      data_type := Some ''organization'', data_owner := Some ''acme'', data_number := Some 1 \<rparr>)"

definition boardP2 :: ProjectDetail where
  "boardP2 = newProjectDetail (emptyData\<lparr> data_id := Some ''p2'', data_title := Some ''Backlog'',
      data_url := Some ''https://github.com/orgs/x/projects/9'' \<rparr>)"

definition labelsP0 :: Labels where
  "labelsP0 =
     \<lparr> priorityLabelOnIssue = ''P0'', priorityLabelOnIssueProcessable = True,
       priorityHigh = ''P0'', priorityMedium = ''P1'', priorityLow = ''P2'' \<rparr>"

definition twoBoards :: Execution where
  "twoBoards =
     \<lparr> owner = ''o'', repo = ''r'', issueNumber = 42, pullRequest_number = 2, token = ''t'',
       labels = labelsP0, projects = [boardP1, boardP2],
       projectColumnIssueInProgress = ''In Progress'' \<rparr>"

text \<open>The first board accepts the call, every other board makes it throw.\<close>

definition firstOnly :: "ProjectDetail \<Rightarrow> bool outcome" where
  "firstOnly p = (if project_id p = ''p1'' then Inr True else Inl (newError None ''API error''))"

text \<open>The first board answers \<^verbatim>\<open>true\<close>, every other board \<^verbatim>\<open>false\<close>.\<close>

definition firstMoves :: "ProjectDetail \<Rightarrow> bool outcome" where
  "firstMoves p = Inr (project_id p = ''p1'')"

section \<open>\<^verbatim>\<open>InitialSetupUseCase\<close> (src/unnamed/part\_001)\<close>

text \<open>
  The collaborators of the use case are parameters: the three functions of
  \<^verbatim>\<open>utils/setup_files\<close> (they work on the file system and the environment),
  \<^verbatim>\<open>ProjectRepository.getUserFromToken\<close> and the three batch operations of
  \<^verbatim>\<open>IssueRepository\<close>. Each takes the state of the world and returns an outcome and
  the new state; \<^verbatim>\<open>process.cwd()\<close> and \<^verbatim>\<open>param.issueTypes\<close> are part of what
  the functions stand for.
\<close>

record copy_result =
  copied :: nat
  skipped :: nat

record batch_result =
  created :: nat
  existing :: nat
  batch_errors :: "string list"

text \<open>What the private methods \<^verbatim>\<open>ensureLabels\<close> and \<^verbatim>\<open>ensureIssueTypes\<close> return.\<close>

record checked_result = batch_result +
  checked_success :: bool

text \<open>What the private method \<^verbatim>\<open>verifyGitHubAccess\<close> returns.\<close>

record access_result =
  access_success :: bool
  access_user :: "string option"
  access_errors :: "string list"

record 's SetupEnv =
  ensureGitHubDirs :: "'s \<Rightarrow> unit outcome \<times> 's"
  copySetupFiles :: "'s \<Rightarrow> copy_result outcome \<times> 's"
  hasValidSetupToken :: "'s \<Rightarrow> bool outcome \<times> 's"
  getUserFromToken :: "string \<Rightarrow> 's \<Rightarrow> string outcome \<times> 's"
  repository_ensureLabels ::
    "string \<Rightarrow> string \<Rightarrow> Labels \<Rightarrow> string \<Rightarrow> 's \<Rightarrow> batch_result outcome \<times> 's"
  repository_ensureProgressLabels ::
    "string \<Rightarrow> string \<Rightarrow> string \<Rightarrow> 's \<Rightarrow> batch_result outcome \<times> 's"
  repository_ensureIssueTypes ::
    "string \<Rightarrow> string \<Rightarrow> 's \<Rightarrow> batch_result outcome \<times> 's"

text \<open>The record of the calls made, each with its outcome.\<close>

datatype setup_event =
    EnsureGitHubDirs "unit outcome"
  | CopySetupFiles "copy_result outcome"
  | HasValidSetupToken "bool outcome"
  | GetUserFromToken "string outcome"
  | EnsureLabels "batch_result outcome"
  | EnsureProgressLabels "batch_result outcome"
  | EnsureIssueTypes "batch_result outcome"

type_synonym 's setup_state = "'s \<times> setup_event list"

definition perform ::
  "('s \<Rightarrow> 'a outcome \<times> 's) \<Rightarrow> ('a outcome \<Rightarrow> 'e) \<Rightarrow> 's \<times> 'e list \<Rightarrow> 'a outcome \<times> ('s \<times> 'e list)" where
  "perform call event st =
     (case call (fst st) of (out, s') \<Rightarrow> (out, (s', snd st @ [event out])))"

definition taskId_InitialSetup :: string where
  "taskId_InitialSetup = ''InitialSetupUseCase''"

text \<open>The character U+2705 (a white check mark on green) that starts a step, in UTF-8.\<close>

definition checkMark :: string where
  "checkMark = [CHR 0xE2, CHR 0x9C, CHR 0x85]"

text \<open>\<^verbatim>\<open>`${x}`\<close> for an optional string.\<close>

definition interpolateOptional :: "string option \<Rightarrow> string" where
  "interpolateOptional x = (case x of None \<Rightarrow> ''undefined'' | Some v \<Rightarrow> v)"

definition verifyGitHubAccess ::
  "'s SetupEnv \<Rightarrow> Execution \<Rightarrow> 's setup_state \<Rightarrow> access_result \<times> 's setup_state" where
  "verifyGitHubAccess env param st =
     (case perform (getUserFromToken env (token param)) GetUserFromToken st of
        (Inr user, st') \<Rightarrow>
          (\<lparr> access_success = True, access_user = Some user, access_errors = [] \<rparr>, st')
      | (Inl error, st') \<Rightarrow>
          (\<lparr> access_success = False, access_user = None,
             access_errors = [''No se pudo verificar el acceso a GitHub: '' @ interpolate error] \<rparr>,
           st'))"

definition setup_ensureLabels ::
  "'s SetupEnv \<Rightarrow> Execution \<Rightarrow> 's setup_state \<Rightarrow> checked_result \<times> 's setup_state" where
  "setup_ensureLabels env param st =
     (case perform (repository_ensureLabels env (owner param) (repo param) (labels param)
                      (token param)) EnsureLabels st of
        (Inr result, st') \<Rightarrow>
          (\<lparr> created = created result, existing = existing result,
             batch_errors = batch_errors result,
             checked_success = (length (batch_errors result) = 0) \<rparr>, st')
      | (Inl error, st') \<Rightarrow>
          (\<lparr> created = 0, existing = 0,
             batch_errors = [''Error asegurando labels: '' @ interpolate error],
             checked_success = False \<rparr>, st'))"

definition setup_ensureProgressLabels ::
  "'s SetupEnv \<Rightarrow> Execution \<Rightarrow> 's setup_state \<Rightarrow> batch_result \<times> 's setup_state" where
  "setup_ensureProgressLabels env param st =
     (case perform (repository_ensureProgressLabels env (owner param) (repo param)
                      (token param)) EnsureProgressLabels st of
        (Inr result, st') \<Rightarrow> (result, st')
      | (Inl error, st') \<Rightarrow>
          (\<lparr> created = 0, existing = 0,
             batch_errors = [''Error asegurando progress labels: '' @ interpolate error] \<rparr>,
           st'))"

definition setup_ensureIssueTypes ::
  "'s SetupEnv \<Rightarrow> Execution \<Rightarrow> 's setup_state \<Rightarrow> checked_result \<times> 's setup_state" where
  "setup_ensureIssueTypes env param st =
     (case perform (repository_ensureIssueTypes env (owner param) (token param))
             EnsureIssueTypes st of
        (Inr result, st') \<Rightarrow>
          (\<lparr> created = created result, existing = existing result,
             batch_errors = batch_errors result,
             checked_success = (length (batch_errors result) = 0) \<rparr>, st')
      | (Inl error, st') \<Rightarrow>
          (\<lparr> created = 0, existing = 0,
             batch_errors = [''Error asegurando tipos de Issue: '' @ interpolate error],
             checked_success = False \<rparr>, st'))"

text \<open>
  The stages after the GitHub access check: labels, progress labels, issue types, and the
  final result. \<open>steps\<close> and \<open>errors\<close> are the two arrays as they are on entry.
\<close>

definition ensureStages ::
  "'s SetupEnv \<Rightarrow> Execution \<Rightarrow> string list \<Rightarrow> string list \<Rightarrow> 's setup_state
     \<Rightarrow> Result list \<times> 's setup_state" where
  "ensureStages env param steps0 errors0 st =
     (case setup_ensureLabels env param st of (labelsResult, st1) \<Rightarrow>
      let errors1 = (if \<not> checked_success labelsResult
                     then errors0 @ batch_errors labelsResult else errors0);
          steps1 = (if \<not> checked_success labelsResult then steps0
                    else steps0 @ [checkMark @ '' Labels checked: ''
                           @ natToString (created labelsResult) @ '' created, ''
                           @ natToString (existing labelsResult) @ '' already existed''])
      in
      case setup_ensureProgressLabels env param st1 of (progressLabelsResult, st2) \<Rightarrow>
      let errors2 = (if length (batch_errors progressLabelsResult) > 0
                     then errors1 @ batch_errors progressLabelsResult else errors1);
          steps2 = (if length (batch_errors progressLabelsResult) > 0 then steps1
                    else steps1 @ [checkMark @ '' Progress labels checked: ''
                           @ natToString (created progressLabelsResult) @ '' created, ''
                           @ natToString (existing progressLabelsResult) @ '' already existed''])
      in
      case setup_ensureIssueTypes env param st2 of (issueTypesResult, st3) \<Rightarrow>
      let errors3 = (if \<not> checked_success issueTypesResult
                     then errors2 @ batch_errors issueTypesResult else errors2);
          steps3 = (if \<not> checked_success issueTypesResult then steps2
                    else steps2 @ [checkMark @ '' Issue types checked: ''
                           @ natToString (created issueTypesResult) @ '' created, ''
                           @ natToString (existing issueTypesResult) @ '' already existed''])
      in
      ([\<lparr> result_id = taskId_InitialSetup, success = (length errors3 = 0), executed = True,
          steps = Some steps3,
          errors = (if length errors3 > 0 then Some errors3 else None) \<rparr>], st3))"

text \<open>
  The \<^verbatim>\<open>try\<close> block: \<open>Inr\<close> is the array \<^verbatim>\<open>results\<close> it returns or leaves,
  \<open>Inl\<close> a thrown value with the arrays \<^verbatim>\<open>steps\<close> and \<^verbatim>\<open>errors\<close> at the throw.
\<close>

definition setupBody ::
  "'s SetupEnv \<Rightarrow> Execution \<Rightarrow> 's setup_state
     \<Rightarrow> ((thrown \<times> string list \<times> string list) + Result list) \<times> 's setup_state" where
  "setupBody env param st =
     (case perform (ensureGitHubDirs env) EnsureGitHubDirs st of
        (Inl error, st1) \<Rightarrow> (Inl (error, [], []), st1)
      | (Inr _, st1) \<Rightarrow>
     (case perform (copySetupFiles env) CopySetupFiles st1 of
        (Inl error, st2) \<Rightarrow> (Inl (error, [], []), st2)
      | (Inr filesResult, st2) \<Rightarrow>
     (let steps0 = [checkMark @ '' Setup files: '' @ natToString (copied filesResult)
                      @ '' copied, '' @ natToString (skipped filesResult)
                      @ '' already existed'']
      in
      case perform (hasValidSetupToken env) HasValidSetupToken st2 of
        (Inl error, st3) \<Rightarrow> (Inl (error, steps0, []), st3)
      | (Inr valid, st3) \<Rightarrow>
          if \<not> valid then
            (Inr [\<lparr> result_id = taskId_InitialSetup, success = False, executed = True,
                    steps = Some steps0,
                    errors = Some [''PERSONAL_ACCESS_TOKEN must be set (environment or .env) with a valid token to run setup.''] \<rparr>],
             st3)
          else
            (case verifyGitHubAccess env param st3 of (githubAccessResult, st4) \<Rightarrow>
               if \<not> access_success githubAccessResult then
                 (Inr [\<lparr> result_id = taskId_InitialSetup, success = False, executed = True,
                         steps = Some steps0,
                         errors = Some (access_errors githubAccessResult) \<rparr>], st4)
               else
                 (case ensureStages env param
                         (steps0 @ [checkMark @ '' GitHub access verified: ''
                                      @ interpolateOptional (access_user githubAccessResult)])
                         [] st4 of
                    (results, st5) \<Rightarrow> (Inr results, st5))))))"

definition invoke_InitialSetup ::
  "'s SetupEnv \<Rightarrow> Execution \<Rightarrow> 's setup_state \<Rightarrow> Result list \<times> 's setup_state" where
  "invoke_InitialSetup env param st =
     (case setupBody env param st of
        (Inr results, st') \<Rightarrow> (results, st')
      | (Inl (error, steps', errors'), st') \<Rightarrow>
          ([\<lparr> result_id = taskId_InitialSetup, success = False, executed = True,
              steps = Some steps',
              errors = Some (errors' @ [''Error ejecutando setup inicial: ''
                                          @ interpolate error]) \<rparr>], st'))"

section \<open>\<^verbatim>\<open>IssueRepository\<close>: label and issue-type reconciliation\<close>

text \<open>
  Modelled from the spec: of \<^verbatim>\<open>data/repository/issue_repository.ts\<close>, the file that
  holds \<^verbatim>\<open>ensureLabel\<close>, \<^verbatim>\<open>ensureLabels\<close>, \<^verbatim>\<open>ensureIssueType\<close>,
  \<^verbatim>\<open>ensureIssueTypes\<close> and \<^verbatim>\<open>setProgressLabel\<close>, only the test suite is
  among the sources. The definitions of this section follow sections 4.1, 4.2 and 7 of the
  specification. The endpoints of the remote API (section 6: create and list labels, get
  and set the labels of an issue, list and create organization issue types) are
  parameters that take the remote state and return an outcome and the new state; the
  calls made are recorded in order.
\<close>

record label_info =
  label_name :: string
  label_color :: string
  label_description :: "string option"

record issue_type_info =
  type_id :: string
  type_name :: string

record 's IssueApi =
  listLabelsForRepo :: "string \<Rightarrow> string \<Rightarrow> string \<Rightarrow> 's \<Rightarrow> label_info list outcome \<times> 's"
  createLabel ::
    "string \<Rightarrow> string \<Rightarrow> string \<Rightarrow> string \<Rightarrow> string \<Rightarrow> string \<Rightarrow> 's \<Rightarrow> unit outcome \<times> 's"
  getLabels :: "string \<Rightarrow> string \<Rightarrow> int \<Rightarrow> string \<Rightarrow> 's \<Rightarrow> string list outcome \<times> 's"
  setLabels :: "string \<Rightarrow> string \<Rightarrow> int \<Rightarrow> string list \<Rightarrow> string \<Rightarrow> 's \<Rightarrow> unit outcome \<times> 's"
  listIssueTypes :: "string \<Rightarrow> string \<Rightarrow> 's \<Rightarrow> issue_type_info list outcome \<times> 's"
  createIssueType ::
    "string \<Rightarrow> string \<Rightarrow> string \<Rightarrow> string \<Rightarrow> string \<Rightarrow> 's \<Rightarrow> string outcome \<times> 's"

datatype api_call =
    ListLabelsForRepo string string string
  | CreateLabel string string string string string string
  | GetLabels string string int string
  | SetLabels string string int "string list" string
  | ListIssueTypes string string
  | CreateIssueType string string string string string

type_synonym 's api_state = "'s \<times> api_call list"

text \<open>What \<^verbatim>\<open>ensureLabel\<close> and \<^verbatim>\<open>ensureIssueType\<close> return: \<^verbatim>\<open>{created, existed}\<close>.\<close>

record ensure_result =
  ensure_created :: bool
  existed :: bool

text \<open>
  Modelled from the spec: the create-time error "already exists" is the one with HTTP
  status 422 (section 4.1).
\<close>

fun isAlreadyExists :: "thrown \<Rightarrow> bool" where
  "isAlreadyExists (ThrownValue st m s) = (st = Some 422)"
| "isAlreadyExists _ = False"

text \<open>
  Modelled from the spec: \<^verbatim>\<open>ensureLabel\<close> is not among the sources. Section 4.1:
  an empty or whitespace-only name is a no-op; otherwise the live list is
  checked for a case-insensitive match of the name; if there is none the label is created,
  and an "already exists" error of the creation counts as existed. Any other error is
  thrown to the caller.
\<close>

definition ensureLabel ::
  "'s IssueApi \<Rightarrow> string \<Rightarrow> string \<Rightarrow> string \<Rightarrow> string \<Rightarrow> string \<Rightarrow> string \<Rightarrow> 's api_state
     \<Rightarrow> ensure_result outcome \<times> 's api_state" where
  "ensureLabel api ow rp name color description tk st =
     (if trim name = [] then (Inr \<lparr> ensure_created = False, existed = False \<rparr>, st)
      else
        case perform (listLabelsForRepo api ow rp tk) (\<lambda>_. ListLabelsForRepo ow rp tk) st of
          (Inl error, st1) \<Rightarrow> (Inl error, st1)
        | (Inr existingLabels, st1) \<Rightarrow>
            if list_ex (\<lambda>l. toLowerCase (label_name l) = toLowerCase name) existingLabels
            then (Inr \<lparr> ensure_created = False, existed = True \<rparr>, st1)
            else
              (case perform (createLabel api ow rp name color description tk)
                      (\<lambda>_. CreateLabel ow rp name color description tk) st1 of
                 (Inr _, st2) \<Rightarrow> (Inr \<lparr> ensure_created = True, existed = False \<rparr>, st2)
               | (Inl error, st2) \<Rightarrow>
                   if isAlreadyExists error
                   then (Inr \<lparr> ensure_created = False, existed = True \<rparr>, st2)
                   else (Inl error, st2)))"

text \<open>
  Modelled from the spec: \<^verbatim>\<open>ensureIssueType\<close> is not among the sources. Section 4.1
  gives it the contract of \<^verbatim>\<open>ensureLabel\<close>, on the issue types of the organization.
\<close>

definition ensureIssueType ::
  "'s IssueApi \<Rightarrow> string \<Rightarrow> string \<Rightarrow> string \<Rightarrow> string \<Rightarrow> string \<Rightarrow> 's api_state
     \<Rightarrow> ensure_result outcome \<times> 's api_state" where
  "ensureIssueType api organization name description color tk st =
     (if trim name = [] then (Inr \<lparr> ensure_created = False, existed = False \<rparr>, st)
      else
        case perform (listIssueTypes api organization tk) (\<lambda>_. ListIssueTypes organization tk) st of
          (Inl error, st1) \<Rightarrow> (Inl error, st1)
        | (Inr existingTypes, st1) \<Rightarrow>
            if list_ex (\<lambda>t. toLowerCase (type_name t) = toLowerCase name) existingTypes
            then (Inr \<lparr> ensure_created = False, existed = True \<rparr>, st1)
            else
              (case perform (createIssueType api organization name description color tk)
                      (\<lambda>_. CreateIssueType organization name description color tk) st1 of
                 (Inr _, st2) \<Rightarrow> (Inr \<lparr> ensure_created = True, existed = False \<rparr>, st2)
               | (Inl error, st2) \<Rightarrow>
                   if isAlreadyExists error
                   then (Inr \<lparr> ensure_created = False, existed = True \<rparr>, st2)
                   else (Inl error, st2)))"

text \<open>
  Modelled from the spec: the loop of \<^verbatim>\<open>ensureLabels\<close> and
  \<^verbatim>\<open>ensureIssueTypes\<close>, which are not among the sources. The batch variants
  (sections 4.1 and 7) run one ensure per entry, in order, count the
  created and the existing entries, and turn an error thrown for an entry into a string
  appended to \<^verbatim>\<open>errors\<close>; the loop goes on with the next entry. The entries are the
  names, colors and descriptions that the configuration gives.
\<close>

record entry =
  entry_name :: string
  entry_color :: string
  entry_description :: string

fun ensureBatch ::
  "('e \<Rightarrow> 's api_state \<Rightarrow> ensure_result outcome \<times> 's api_state) \<Rightarrow> 'e list
     \<Rightarrow> nat \<Rightarrow> nat \<Rightarrow> string list \<Rightarrow> 's api_state \<Rightarrow> batch_result \<times> 's api_state" where
  "ensureBatch ensure [] createdCount existingCount errs st =
     (\<lparr> created = createdCount, existing = existingCount, batch_errors = errs \<rparr>, st)"
| "ensureBatch ensure (e # es) createdCount existingCount errs st =
     (case ensure e st of
        (Inr result, st') \<Rightarrow>
          ensureBatch ensure es
            (if ensure_created result then createdCount + 1 else createdCount)
            (if existed result then existingCount + 1 else existingCount)
            errs st'
      | (Inl error, st') \<Rightarrow>
          ensureBatch ensure es createdCount existingCount (errs @ [interpolate error]) st')"

text \<open>
  Modelled from the spec: \<^verbatim>\<open>ensureLabels\<close>, the batch over \<^verbatim>\<open>ensureLabel\<close>
  (section 4.1).
\<close>

definition ensureLabels ::
  "'s IssueApi \<Rightarrow> string \<Rightarrow> string \<Rightarrow> entry list \<Rightarrow> string \<Rightarrow> 's api_state
     \<Rightarrow> batch_result \<times> 's api_state" where
  "ensureLabels api ow rp entries tk st =
     ensureBatch
       (\<lambda>e. ensureLabel api ow rp (entry_name e) (entry_color e) (entry_description e) tk)
       entries 0 0 [] st"

text \<open>
  Modelled from the spec: \<^verbatim>\<open>ensureIssueTypes\<close>, the batch over
  \<^verbatim>\<open>ensureIssueType\<close> (section 4.1).
\<close>

definition ensureIssueTypes ::
  "'s IssueApi \<Rightarrow> string \<Rightarrow> entry list \<Rightarrow> string \<Rightarrow> 's api_state
     \<Rightarrow> batch_result \<times> 's api_state" where
  "ensureIssueTypes api organization entries tk st =
     ensureBatch
       (\<lambda>e. ensureIssueType api organization (entry_name e) (entry_description e)
               (entry_color e) tk)
       entries 0 0 [] st"

text \<open>
  Modelled from the spec: \<^verbatim>\<open>PROGRESS_LABEL_PATTERN\<close> is declared in the missing file;
  section 4.2 gives it as \<^verbatim>\<open>^\d+%$\<close>: one or more decimal digits and then a percent
  sign, nothing else.
\<close>

definition PROGRESS_LABEL_PATTERN :: "string \<Rightarrow> bool" where
  "PROGRESS_LABEL_PATTERN l =
     (l \<noteq> [] \<and> last l = CHR ''%'' \<and> butlast l \<noteq> [] \<and> list_all isDigit (butlast l))"

text \<open>
  Modelled from the spec: \<^verbatim>\<open>setProgressLabel\<close> is not among the sources. Section 4.2:
  fetch the current labels of the issue, strip every label that matches the percentage
  pattern, append the new percentage label, and overwrite the full label set in one call.
\<close>

definition setProgressLabel ::
  "'s IssueApi \<Rightarrow> string \<Rightarrow> string \<Rightarrow> int \<Rightarrow> int \<Rightarrow> string \<Rightarrow> 's api_state
     \<Rightarrow> unit outcome \<times> 's api_state" where
  "setProgressLabel api ow rp issue percentage tk st =
     (case perform (getLabels api ow rp issue tk) (\<lambda>_. GetLabels ow rp issue tk) st of
        (Inl error, st1) \<Rightarrow> (Inl error, st1)
      | (Inr currentLabels, st1) \<Rightarrow>
          let withoutProgress = filter (\<lambda>l. \<not> PROGRESS_LABEL_PATTERN l) currentLabels;
              newLabels = withoutProgress @ [numberToString percentage @ ''%'']
          in perform (setLabels api ow rp issue newLabels tk)
               (\<lambda>_. SetLabels ow rp issue newLabels tk) st1)"

text \<open>
  What the batch has to compute: the outcome of each entry, each ensure starting in the
  state the one before left.
\<close>

fun ensureEach ::
  "('e \<Rightarrow> 's api_state \<Rightarrow> ensure_result outcome \<times> 's api_state) \<Rightarrow> 'e list \<Rightarrow> 's api_state
     \<Rightarrow> ensure_result outcome list \<times> 's api_state" where
  "ensureEach ensure [] st = ([], st)"
| "ensureEach ensure (e # es) st =
     (case ensure e st of (out, st') \<Rightarrow>
        case ensureEach ensure es st' of (outs, st'') \<Rightarrow> (out # outs, st''))"

definition createdOf :: "ensure_result outcome list \<Rightarrow> nat" where
  "createdOf outs = length (filter (\<lambda>out. case out of Inr r \<Rightarrow> ensure_created r | Inl _ \<Rightarrow> False) outs)"

definition existingOf :: "ensure_result outcome list \<Rightarrow> nat" where
  "existingOf outs = length (filter (\<lambda>out. case out of Inr r \<Rightarrow> existed r | Inl _ \<Rightarrow> False) outs)"

definition thrownOf :: "ensure_result outcome list \<Rightarrow> thrown list" where
  "thrownOf outs = concat (map (\<lambda>out. case out of Inl e \<Rightarrow> [e] | Inr _ \<Rightarrow> []) outs)"

section \<open>Concrete repositories\<close>

text \<open>
  A remote repository whose state is the list of its labels and the labels of its one
  issue. Creating a label whose name is \<^verbatim>\<open>broken\<close> fails with status 500; creating one
  that exists fails with status 422.
\<close>

record store =
  repoLabels :: "label_info list"
  issueLabels :: "string list"

definition storeApi :: "store IssueApi" where
  "storeApi =
     \<lparr> listLabelsForRepo = (\<lambda>ow rp tk s. (Inr (repoLabels s), s)),
       createLabel = (\<lambda>ow rp name color description tk s.
          if name = ''broken'' then (Inl (newError (Some 500) ''Server error''), s)
          else if list_ex (\<lambda>l. label_name l = name) (repoLabels s)
          then (Inl (newError (Some 422) ''already exists''), s)
          else (Inr (), s\<lparr> repoLabels := repoLabels s
                  @ [\<lparr> label_name = name, label_color = color,
                       label_description = Some description \<rparr>] \<rparr>)),
       getLabels = (\<lambda>ow rp issue tk s. (Inr (issueLabels s), s)),
       setLabels = (\<lambda>ow rp issue ls tk s. (Inr (), s\<lparr> issueLabels := ls \<rparr>)),
       listIssueTypes = (\<lambda>organization tk s. (Inr [], s)),
       createIssueType = (\<lambda>organization name description color tk s. (Inr ''IT_1'', s)) \<rparr>"

definition bugOnly :: store where
  "bugOnly =
     \<lparr> repoLabels = [\<lparr> label_name = ''Bug'', label_color = ''d73a4a'',
                       label_description = None \<rparr>],
       issueLabels = [''50%'', ''feature''] \<rparr>"

text \<open>A list endpoint that does not see the label yet, as in a race with another writer.\<close>

definition staleApi :: "store IssueApi" where
  "staleApi = storeApi\<lparr> listLabelsForRepo := (\<lambda>ow rp tk s. (Inr [], s)) \<rparr>"

definition threeEntries :: "entry list" where
  "threeEntries =
     [\<lparr> entry_name = ''bug'', entry_color = ''d73a4a'', entry_description = ''Bug'' \<rparr>,
      \<lparr> entry_name = ''broken'', entry_color = ''000000'', entry_description = ''Fails'' \<rparr>,
      \<lparr> entry_name = ''feature'', entry_color = ''0e8a16'', entry_description = ''Feature'' \<rparr>]"

section \<open>Reading the record of the setup calls\<close>

text \<open>
  The errors a call of one of the three ensure stages contributes: those of the batch
  result, or the message the private method makes of a thrown value.
\<close>

fun stageErrors :: "setup_event \<Rightarrow> string list" where
  "stageErrors (EnsureLabels (Inr result)) = batch_errors result"
| "stageErrors (EnsureLabels (Inl error)) = [''Error asegurando labels: '' @ interpolate error]"
| "stageErrors (EnsureProgressLabels (Inr result)) = batch_errors result"
| "stageErrors (EnsureProgressLabels (Inl error)) =
     [''Error asegurando progress labels: '' @ interpolate error]"
| "stageErrors (EnsureIssueTypes (Inr result)) = batch_errors result"
| "stageErrors (EnsureIssueTypes (Inl error)) =
     [''Error asegurando tipos de Issue: '' @ interpolate error]"
| "stageErrors _ = []"

text \<open>The accumulated errors of a result: none when the field is left out.\<close>

definition accumulatedErrors :: "Result \<Rightarrow> string list" where
  "accumulatedErrors res = (case errors res of None \<Rightarrow> [] | Some es \<Rightarrow> es)"

text \<open>
  An environment without state that answers as scripted; creating the directories works.
\<close>

definition scriptedEnv ::
  "copy_result outcome \<Rightarrow> bool \<Rightarrow> string outcome
     \<Rightarrow> batch_result outcome \<Rightarrow> batch_result outcome \<Rightarrow> batch_result outcome \<Rightarrow> unit SetupEnv" where
  "scriptedEnv files valid user labelsOut progressOut typesOut =
     \<lparr> ensureGitHubDirs = (\<lambda>s. (Inr (), s)),
       copySetupFiles = (\<lambda>s. (files, s)),
       hasValidSetupToken = (\<lambda>s. (Inr valid, s)),
       getUserFromToken = (\<lambda>tk s. (user, s)),
       repository_ensureLabels = (\<lambda>ow rp ls tk s. (labelsOut, s)),
       repository_ensureProgressLabels = (\<lambda>ow rp tk s. (progressOut, s)),
       repository_ensureIssueTypes = (\<lambda>ow tk s. (typesOut, s)) \<rparr>"

text \<open>Two files copied; five labels exist; the progress labels exist; three issue types exist.\<close>

definition twoCopied :: "copy_result outcome" where
  "twoCopied = Inr \<lparr> copied = 2, skipped = 0 \<rparr>"

definition labelsExist :: "batch_result outcome" where
  "labelsExist = Inr \<lparr> created = 0, existing = 5, batch_errors = [] \<rparr>"

definition labelsFail :: "batch_result outcome" where
  "labelsFail = Inr \<lparr> created = 0, existing = 0, batch_errors = [''Label error''] \<rparr>"

definition progressThrows :: "batch_result outcome" where
  "progressThrows = Inl (newError None ''progress labels failed'')"

definition typesExist :: "batch_result outcome" where
  "typesExist = Inr \<lparr> created = 0, existing = 3, batch_errors = [] \<rparr>"

section \<open>Properties of \<^verbatim>\<open>ProjectDetail\<close>\<close>

lemma numberToString_1: "numberToString 1 = ''1''"
  by code_simp

lemma numberToString_3: "numberToString 3 = ''3''"
  by code_simp

text \<open>
  Claim C7. For every project, \<open>publicUrl\<close> is the stored url itself whenever that
  starts with \<^verbatim>\<open>https://\<close>, whatever the type, owner and number are; otherwise it
  is \<^verbatim>\<open>https://github.com/orgs/{owner}/projects/{number}\<close> for the type
  \<^verbatim>\<open>organization\<close> and \<^verbatim>\<open>https://github.com/users/{owner}/projects/{number}\<close>
  for every other type. The two projects of the specification, built without a url, get
  \<^verbatim>\<open>https://github.com/orgs/acme/projects/1\<close> and
  \<^verbatim>\<open>https://github.com/users/jane/projects/3\<close>.
\<close>

theorem publicUrl_spec:
  "(startsWith (project_url p) ''https://'' \<longrightarrow> publicUrl p = project_url p)
   \<and> (\<not> startsWith (project_url p) ''https://'' \<and> project_type p = ''organization'' \<longrightarrow>
        publicUrl p = ''https://github.com/orgs/'' @ project_owner p @ ''/projects/''
                        @ numberToString (project_number p))
   \<and> (\<not> startsWith (project_url p) ''https://'' \<and> project_type p \<noteq> ''organization'' \<longrightarrow>
        publicUrl p = ''https://github.com/users/'' @ project_owner p @ ''/projects/''
                        @ numberToString (project_number p))
   \<and> publicUrl (newProjectDetail (emptyData\<lparr> data_type := Some ''organization'',
          data_owner := Some ''acme'', data_number := Some 1 \<rparr>))
        = ''https://github.com/orgs/acme/projects/1''
   \<and> publicUrl (newProjectDetail (emptyData\<lparr> data_type := Some ''user'',
          data_owner := Some ''jane'', data_number := Some 3 \<rparr>))
        = ''https://github.com/users/jane/projects/3''"
proof -
  have nonempty: "startsWith u ''https://'' \<Longrightarrow> u \<noteq> []" for u
    by (auto simp: startsWith_def)
  have a: "startsWith (project_url p) ''https://'' \<longrightarrow> publicUrl p = project_url p"
    using nonempty [of "project_url p"] by (simp add: publicUrl_def)
  have b: "\<not> startsWith (project_url p) ''https://'' \<and> project_type p = ''organization'' \<longrightarrow>
        publicUrl p = ''https://github.com/orgs/'' @ project_owner p @ ''/projects/''
                        @ numberToString (project_number p)"
    by (simp add: publicUrl_def)
  have c: "\<not> startsWith (project_url p) ''https://'' \<and> project_type p \<noteq> ''organization'' \<longrightarrow>
        publicUrl p = ''https://github.com/users/'' @ project_owner p @ ''/projects/''
                        @ numberToString (project_number p)"
    by (simp add: publicUrl_def)
  have d: "publicUrl (newProjectDetail (emptyData\<lparr> data_type := Some ''organization'',
          data_owner := Some ''acme'', data_number := Some 1 \<rparr>))
        = ''https://github.com/orgs/acme/projects/1''"
    by (simp add: publicUrl_def newProjectDetail_def emptyData_def orElse_def startsWith_def
        numberToString_1)
  have e: "publicUrl (newProjectDetail (emptyData\<lparr> data_type := Some ''user'',
          data_owner := Some ''jane'', data_number := Some 3 \<rparr>))
        = ''https://github.com/users/jane/projects/3''"
    by (simp add: publicUrl_def newProjectDetail_def emptyData_def orElse_def startsWith_def
        numberToString_3)
  from a b c d e show ?thesis by blast
qed

text \<open>
  The theorem at the project of the specification whose url is
  \<^verbatim>\<open>https://github.com/orgs/x/projects/9\<close> while its type, owner and number say
  something else, and at two projects without a url.
\<close>

theorem publicUrl_spec_witness:
  "startsWith ''https://github.com/orgs/x/projects/9'' ''https://''
   \<and> publicUrl \<lparr> project_id = ''PVT_1'', project_title = ''Sprint 1'', project_type = ''user'',
        project_owner = ''jane'', project_url = ''https://github.com/orgs/x/projects/9'',
        project_number = 3 \<rparr> = ''https://github.com/orgs/x/projects/9''"
  using publicUrl_spec [of "\<lparr> project_id = ''PVT_1'', project_title = ''Sprint 1'',
        project_type = ''user'', project_owner = ''jane'',
        project_url = ''https://github.com/orgs/x/projects/9'', project_number = 3 \<rparr>"]
  by (simp add: startsWith_def)

section \<open>Properties of the board use cases\<close>

lemma includes_str_prefix: "prefix w s \<Longrightarrow> includes_str s w"
  by (cases s) auto

lemma includes_str_append: "includes_str (xs @ w @ ys) w"
proof (induction xs)
  case Nil
  show ?case by (rule includes_str_prefix) simp
next
  case (Cons x xs)
  then show ?case by simp
qed

lemma step_references:
  "referencesBoard \<lparr> result_id = i, success = True, executed = True,
      steps = Some [a @ project_title p @ b @ publicUrl p @ c], errors = None \<rparr> p"
proof -
  have title: "includes_str (a @ project_title p @ (b @ publicUrl p @ c)) (project_title p)"
    by (rule includes_str_append)
  have url: "includes_str ((a @ project_title p @ b) @ publicUrl p @ c) (publicUrl p)"
    by (rule includes_str_append)
  from title url show ?thesis by (simp add: referencesBoard_def)
qed

text \<open>
  What one run of the loop of \<open>MoveIssueToInProgressUseCase\<close> adds to the record of
  calls and to the result array.
\<close>

lemma moveLoop_log:
  "moveLoop r param c ps result (s, log) = ((thr, result'), (s', log')) \<Longrightarrow>
   \<exists>new. log' = log @ new
     \<and> result' = result @ map (\<lambda>project. \<lparr> result_id = taskId_MoveIssueToInProgress,
                  success = True, executed = True,
                  steps = Some [''Moved issue to `'' @ c @ ''` in [''
                                  @ project_title project @ ''](''
                                  @ publicUrl project @ '').''],
                  errors = None \<rparr>) (returnedTrue new)
     \<and> (\<forall>ev \<in> set (butlast new). \<not> threw ev)
     \<and> map fst new = take (length new) (map (\<lambda>p. MoveIssueToColumn p (owner param) (repo param)
                     (issueNumber param) c (token param)) ps)
     \<and> (ps \<noteq> [] \<longrightarrow> new \<noteq> [])
     \<and> (case thr of
           None \<Rightarrow> (\<forall>ev \<in> set new. \<not> threw ev) \<and> length new = length ps
         | Some e \<Rightarrow> new \<noteq> [] \<and> snd (last new) = Inl e)"
proof (induction ps arbitrary: result s log)
  case Nil
  then show ?case by (auto simp: returnedTrue_def)
next
  case (Cons p ps)
  obtain out s1 where call:
    "moveIssueToColumn r p (owner param) (repo param) (issueNumber param) c (token param) s
       = (out, s1)"
    by (metis surj_pair)
  show ?case
  proof (cases out)
    case (Inl e)
    with Cons.prems call show ?thesis
      by (auto simp: callMoveIssueToColumn_def returnedTrue_def threw_def)
  next
    case (Inr b)
    let ?ev = "(MoveIssueToColumn p (owner param) (repo param) (issueNumber param) c
                  (token param), Inr b :: bool outcome)"
    let ?res = "(if b then result @ [\<lparr> result_id = taskId_MoveIssueToInProgress,
                  success = True, executed = True,
                  steps = Some [''Moved issue to `'' @ c @ ''` in [''
                                  @ project_title p @ ''](''
                                  @ publicUrl p @ '').''],
                  errors = None \<rparr>] else result)"
    from Cons.prems call Inr
    have rec: "moveLoop r param c ps ?res (s1, log @ [?ev]) = ((thr, result'), (s', log'))"
      by (simp add: callMoveIssueToColumn_def)
    from Cons.IH [OF rec] obtain new where new: "log' = (log @ [?ev]) @ new"
      "result' = ?res @ map (\<lambda>project. \<lparr> result_id = taskId_MoveIssueToInProgress,
                  success = True, executed = True,
                  steps = Some [''Moved issue to `'' @ c @ ''` in [''
                                  @ project_title project @ ''](''
                                  @ publicUrl project @ '').''],
                  errors = None \<rparr>) (returnedTrue new)"
      "\<forall>ev \<in> set (butlast new). \<not> threw ev"
      "map fst new = take (length new) (map (\<lambda>p. MoveIssueToColumn p (owner param) (repo param)
                     (issueNumber param) c (token param)) ps)"
      "(case thr of
           None \<Rightarrow> (\<forall>ev \<in> set new. \<not> threw ev) \<and> length new = length ps
         | Some e \<Rightarrow> new \<noteq> [] \<and> snd (last new) = Inl e)"
      by blast
    show ?thesis
      apply (rule exI [of _ "?ev # new"])
      using new by (auto simp: returnedTrue_def callProject_def threw_def split: option.splits)
  qed
qed

text \<open>The same for the loop of \<open>CheckPriorityPullRequestSizeUseCase\<close>.\<close>

lemma setPriorityLoop_log:
  "setPriorityLoop r param l ps result (s, log) = ((thr, result'), (s', log')) \<Longrightarrow>
   \<exists>new. log' = log @ new
     \<and> result' = result @ map (\<lambda>project. \<lparr> result_id = taskId_CheckPriorityPullRequestSize,
                  success = True, executed = True,
                  steps = Some [''Priority set to `'' @ l @ ''` in [''
                                  @ project_title project @ ''](''
                                  @ publicUrl project @ '').''],
                  errors = None \<rparr>) (returnedTrue new)
     \<and> (\<forall>ev \<in> set (butlast new). \<not> threw ev)
     \<and> map fst new = take (length new) (map (\<lambda>p. SetTaskPriority p (owner param) (repo param)
                     (pullRequest_number param) l (token param)) ps)
     \<and> (ps \<noteq> [] \<longrightarrow> new \<noteq> [])
     \<and> (case thr of
           None \<Rightarrow> (\<forall>ev \<in> set new. \<not> threw ev) \<and> length new = length ps
         | Some e \<Rightarrow> new \<noteq> [] \<and> snd (last new) = Inl e)"
proof (induction ps arbitrary: result s log)
  case Nil
  then show ?case by (auto simp: returnedTrue_def)
next
  case (Cons p ps)
  obtain out s1 where call:
    "setTaskPriority r p (owner param) (repo param) (pullRequest_number param) l (token param) s
       = (out, s1)"
    by (metis surj_pair)
  show ?case
  proof (cases out)
    case (Inl e)
    with Cons.prems call show ?thesis
      by (auto simp: callSetTaskPriority_def returnedTrue_def threw_def)
  next
    case (Inr b)
    let ?ev = "(SetTaskPriority p (owner param) (repo param) (pullRequest_number param) l
                  (token param), Inr b :: bool outcome)"
    let ?res = "(if b then result @ [\<lparr> result_id = taskId_CheckPriorityPullRequestSize,
                  success = True, executed = True,
                  steps = Some [''Priority set to `'' @ l @ ''` in [''
                                  @ project_title p @ ''](''
                                  @ publicUrl p @ '').''],
                  errors = None \<rparr>] else result)"
    from Cons.prems call Inr
    have rec: "setPriorityLoop r param l ps ?res (s1, log @ [?ev]) = ((thr, result'), (s', log'))"
      by (simp add: callSetTaskPriority_def)
    from Cons.IH [OF rec] obtain new where new: "log' = (log @ [?ev]) @ new"
      "result' = ?res @ map (\<lambda>project. \<lparr> result_id = taskId_CheckPriorityPullRequestSize,
                  success = True, executed = True,
                  steps = Some [''Priority set to `'' @ l @ ''` in [''
                                  @ project_title project @ ''](''
                                  @ publicUrl project @ '').''],
                  errors = None \<rparr>) (returnedTrue new)"
      "\<forall>ev \<in> set (butlast new). \<not> threw ev"
      "map fst new = take (length new) (map (\<lambda>p. SetTaskPriority p (owner param) (repo param)
                     (pullRequest_number param) l (token param)) ps)"
      "(case thr of
           None \<Rightarrow> (\<forall>ev \<in> set new. \<not> threw ev) \<and> length new = length ps
         | Some e \<Rightarrow> new \<noteq> [] \<and> snd (last new) = Inl e)"
      by blast
    show ?thesis
      apply (rule exI [of _ "?ev # new"])
      using new by (auto simp: returnedTrue_def callProject_def threw_def split: option.splits)
  qed
qed

text \<open>
  The \<^verbatim>\<open>try\<close> block with its \<^verbatim>\<open>catch\<close>, started with an empty record of calls: the
  results are one success result per board whose call returned \<^verbatim>\<open>true\<close>, then the
  failure result if and only if the last call threw.
\<close>

lemma setPriorityOrFail_log:
  assumes run: "setPriorityOrFail r param l (s, []) = (results, (s', log))"
  shows "map fst log = take (length log) (map (\<lambda>p. SetTaskPriority p (owner param) (repo param)
                     (pullRequest_number param) l (token param)) (projects param))"
    and "projects param \<noteq> [] \<longrightarrow> log \<noteq> []"
    and "\<forall>ev \<in> set (butlast log). \<not> threw ev"
    and "(\<forall>ev \<in> set log. \<not> threw ev) \<longrightarrow>
           length log = length (projects param)
           \<and> results = map (\<lambda>project. \<lparr> result_id = taskId_CheckPriorityPullRequestSize,
                  success = True, executed = True,
                  steps = Some [''Priority set to `'' @ l @ ''` in [''
                                  @ project_title project @ ''](''
                                  @ publicUrl project @ '').''],
                  errors = None \<rparr>) (returnedTrue log)"
    and "(\<exists>ev \<in> set log. threw ev) \<longrightarrow>
           (\<exists>error. snd (last log) = Inl error
             \<and> results = map (\<lambda>project. \<lparr> result_id = taskId_CheckPriorityPullRequestSize,
                  success = True, executed = True,
                  steps = Some [''Priority set to `'' @ l @ ''` in [''
                                  @ project_title project @ ''](''
                                  @ publicUrl project @ '').''],
                  errors = None \<rparr>) (returnedTrue log)
                @ [\<lparr> result_id = taskId_CheckPriorityPullRequestSize, success = False,
                     executed = True,
                     steps = Some [''Tried to check the priority of the issue, but there was a problem.''],
                     errors = Some [toStringOrUnknown error] \<rparr>])"
proof -
  obtain thr result s1 log1
    where loop: "setPriorityLoop r param l (projects param) [] (s, []) = ((thr, result), (s1, log1))"
    by (metis surj_pair)
  from setPriorityLoop_log [OF loop] have new:
    "result = map (\<lambda>project. \<lparr> result_id = taskId_CheckPriorityPullRequestSize,
                  success = True, executed = True,
                  steps = Some [''Priority set to `'' @ l @ ''` in [''
                                  @ project_title project @ ''](''
                                  @ publicUrl project @ '').''],
                  errors = None \<rparr>) (returnedTrue log1)"
    "\<forall>ev \<in> set (butlast log1). \<not> threw ev"
    "map fst log1 = take (length log1) (map (\<lambda>p. SetTaskPriority p (owner param) (repo param)
                     (pullRequest_number param) l (token param)) (projects param))"
    "projects param \<noteq> [] \<longrightarrow> log1 \<noteq> []"
    "(case thr of
           None \<Rightarrow> (\<forall>ev \<in> set log1. \<not> threw ev) \<and> length log1 = length (projects param)
         | Some e \<Rightarrow> log1 \<noteq> [] \<and> snd (last log1) = Inl e)"
    by auto
  from run loop have log: "log = log1"
    by (auto simp: setPriorityOrFail_def split: option.splits)
  show "map fst log = take (length log) (map (\<lambda>p. SetTaskPriority p (owner param) (repo param)
                     (pullRequest_number param) l (token param)) (projects param))"
    using new(3) log by simp
  show "projects param \<noteq> [] \<longrightarrow> log \<noteq> []" using new(4) log by simp
  show "\<forall>ev \<in> set (butlast log). \<not> threw ev" using new(2) log by simp
  show "(\<forall>ev \<in> set log. \<not> threw ev) \<longrightarrow>
           length log = length (projects param)
           \<and> results = map (\<lambda>project. \<lparr> result_id = taskId_CheckPriorityPullRequestSize,
                  success = True, executed = True,
                  steps = Some [''Priority set to `'' @ l @ ''` in [''
                                  @ project_title project @ ''](''
                                  @ publicUrl project @ '').''],
                  errors = None \<rparr>) (returnedTrue log)"
  proof
    assume quiet: "\<forall>ev \<in> set log. \<not> threw ev"
    have "thr = None"
    proof (cases thr)
      case (Some e)
      with new(5) have "log1 \<noteq> []" "snd (last log1) = Inl e" by auto
      then have "threw (last log1)" "last log1 \<in> set log1" by (auto simp: threw_def)
      with quiet log show ?thesis by auto
    qed simp
    with run loop new log show "length log = length (projects param)
           \<and> results = map (\<lambda>project. \<lparr> result_id = taskId_CheckPriorityPullRequestSize,
                  success = True, executed = True,
                  steps = Some [''Priority set to `'' @ l @ ''` in [''
                                  @ project_title project @ ''](''
                                  @ publicUrl project @ '').''],
                  errors = None \<rparr>) (returnedTrue log)"
      by (auto simp: setPriorityOrFail_def)
  qed
  show "(\<exists>ev \<in> set log. threw ev) \<longrightarrow>
           (\<exists>error. snd (last log) = Inl error
             \<and> results = map (\<lambda>project. \<lparr> result_id = taskId_CheckPriorityPullRequestSize,
                  success = True, executed = True,
                  steps = Some [''Priority set to `'' @ l @ ''` in [''
                                  @ project_title project @ ''](''
                                  @ publicUrl project @ '').''],
                  errors = None \<rparr>) (returnedTrue log)
                @ [\<lparr> result_id = taskId_CheckPriorityPullRequestSize, success = False,
                     executed = True,
                     steps = Some [''Tried to check the priority of the issue, but there was a problem.''],
                     errors = Some [toStringOrUnknown error] \<rparr>])"
  proof
    assume loud: "\<exists>ev \<in> set log. threw ev"
    have "thr \<noteq> None"
    proof
      assume "thr = None"
      with new(5) have "\<forall>ev \<in> set log1. \<not> threw ev" by simp
      with loud log show False by auto
    qed
    then obtain e where e: "thr = Some e" by auto
    with new(5) have last: "snd (last log1) = Inl e" by simp
    from run loop e new(1) log last show "\<exists>error. snd (last log) = Inl error
             \<and> results = map (\<lambda>project. \<lparr> result_id = taskId_CheckPriorityPullRequestSize,
                  success = True, executed = True,
                  steps = Some [''Priority set to `'' @ l @ ''` in [''
                                  @ project_title project @ ''](''
                                  @ publicUrl project @ '').''],
                  errors = None \<rparr>) (returnedTrue log)
                @ [\<lparr> result_id = taskId_CheckPriorityPullRequestSize, success = False,
                     executed = True,
                     steps = Some [''Tried to check the priority of the issue, but there was a problem.''],
                     errors = Some [toStringOrUnknown error] \<rparr>]"
      by (auto simp: setPriorityOrFail_def)
  qed
qed


lemma invoke_Move_log:
  assumes run: "invoke_MoveIssueToInProgress r param (s, []) = (results, (s', log))"
  shows "map fst log = take (length log) (map (\<lambda>p. MoveIssueToColumn p (owner param) (repo param)
                     (issueNumber param) (projectColumnIssueInProgress param) (token param))
                     (projects param))"
    and "\<forall>ev \<in> set (butlast log). \<not> threw ev"
    and "(\<forall>ev \<in> set log. \<not> threw ev) \<longrightarrow> length log = length (projects param)"
    and "\<exists>failure. length failure = length (filter threw log)
           \<and> (\<forall>res \<in> set failure. \<not> success res)
           \<and> results = map (\<lambda>project. \<lparr> result_id = taskId_MoveIssueToInProgress,
                  success = True, executed = True,
                  steps = Some [''Moved issue to `'' @ projectColumnIssueInProgress param
                                  @ ''` in ['' @ project_title project @ ''](''
                                  @ publicUrl project @ '').''],
                  errors = None \<rparr>) (returnedTrue log) @ failure"
proof -
  let ?c = "projectColumnIssueInProgress param"
  obtain thr result s1 log1
    where loop: "moveLoop r param ?c (projects param) [] (s, []) = ((thr, result), (s1, log1))"
    by (metis surj_pair)
  from moveLoop_log [OF loop] have new:
    "result = map (\<lambda>project. \<lparr> result_id = taskId_MoveIssueToInProgress,
                  success = True, executed = True,
                  steps = Some [''Moved issue to `'' @ ?c @ ''` in [''
                                  @ project_title project @ ''](''
                                  @ publicUrl project @ '').''],
                  errors = None \<rparr>) (returnedTrue log1)"
    "\<forall>ev \<in> set (butlast log1). \<not> threw ev"
    "map fst log1 = take (length log1) (map (\<lambda>p. MoveIssueToColumn p (owner param) (repo param)
                     (issueNumber param) ?c (token param)) (projects param))"
    "(case thr of
           None \<Rightarrow> (\<forall>ev \<in> set log1. \<not> threw ev) \<and> length log1 = length (projects param)
         | Some e \<Rightarrow> log1 \<noteq> [] \<and> snd (last log1) = Inl e)"
    by auto
  from run loop have log: "log = log1"
    by (auto simp: invoke_MoveIssueToInProgress_def Let_def split: option.splits)
  show "map fst log = take (length log) (map (\<lambda>p. MoveIssueToColumn p (owner param) (repo param)
                     (issueNumber param) ?c (token param)) (projects param))"
    using new(3) log by simp
  show quiet_before: "\<forall>ev \<in> set (butlast log). \<not> threw ev" using new(2) log by simp
  show "(\<forall>ev \<in> set log. \<not> threw ev) \<longrightarrow> length log = length (projects param)"
  proof
    assume quiet: "\<forall>ev \<in> set log. \<not> threw ev"
    have "thr = None"
    proof (cases thr)
      case (Some e)
      with new(4) have "log1 \<noteq> []" "snd (last log1) = Inl e" by auto
      then have "threw (last log1)" "last log1 \<in> set log1" by (auto simp: threw_def)
      with quiet log show ?thesis by auto
    qed simp
    with new(4) log show "length log = length (projects param)" by simp
  qed
  show "\<exists>failure. length failure = length (filter threw log)
           \<and> (\<forall>res \<in> set failure. \<not> success res)
           \<and> results = map (\<lambda>project. \<lparr> result_id = taskId_MoveIssueToInProgress,
                  success = True, executed = True,
                  steps = Some [''Moved issue to `'' @ ?c @ ''` in [''
                                  @ project_title project @ ''](''
                                  @ publicUrl project @ '').''],
                  errors = None \<rparr>) (returnedTrue log) @ failure"
  proof (cases thr)
    case None
    with new(4) log have "filter threw log = []" by simp
    with None run loop new(1) log show ?thesis
      by (auto simp: invoke_MoveIssueToInProgress_def Let_def)
  next
    case (Some e)
    with new(4) have ne: "log1 \<noteq> []" and last: "threw (last log1)"
      by (auto simp: threw_def)
    from ne have "filter threw log1 = filter threw (butlast log1) @ filter threw [last log1]"
      by (metis append_butlast_last_id filter_append)
    moreover from new(2) have "filter threw (butlast log1) = []" by simp
    ultimately have one: "length (filter threw log) = 1" using last log by simp
    from Some run loop new(1) log
    have "results = map (\<lambda>project. \<lparr> result_id = taskId_MoveIssueToInProgress,
                  success = True, executed = True,
                  steps = Some [''Moved issue to `'' @ ?c @ ''` in [''
                                  @ project_title project @ ''](''
                                  @ publicUrl project @ '').''],
                  errors = None \<rparr>) (returnedTrue log)
              @ [\<lparr> result_id = taskId_MoveIssueToInProgress, success = False, executed = True,
                   steps = Some [''Tried to move the issue to `'' @ ?c
                              @ ''`, but there was a problem.''],
                   errors = Some [toStringOrUnknown e] \<rparr>]"
      by (auto simp: invoke_MoveIssueToInProgress_def Let_def)
    with one show ?thesis
      by (intro exI [of _ "[\<lparr> result_id = taskId_MoveIssueToInProgress, success = False, executed = True,
                   steps = Some [''Tried to move the issue to `'' @ ?c
                              @ ''`, but there was a problem.''],
                   errors = Some [toStringOrUnknown e] \<rparr>]"]) simp
  qed
qed

lemma outcome_count:
  "length (filter (\<lambda>ev. snd ev = Inr True) log) + length (filter (\<lambda>ev. snd ev = Inr False) log)
     + length (filter threw log) = length (log :: board_event list)"
proof (induction log)
  case Nil
  show ?case by simp
next
  case (Cons ev evs)
  then show ?case by (cases ev; cases "snd ev") (auto simp: threw_def)
qed

text \<open>
  Claim C8. In \<open>MoveIssueToInProgressUseCase.invoke\<close> the success results correspond one
  to one, in order, to the boards whose move call returned \<^verbatim>\<open>true\<close>: each has
  \<^verbatim>\<open>success:true\<close>, \<^verbatim>\<open>executed:true\<close> and one step that contains the board's
  title and its public URL. A call that returns \<^verbatim>\<open>false\<close> adds no result: beside the
  success results there is only the failure result of a throwing call, so when no call
  throws every linked board is asked once, in order, and the number of results is the number
  of linked boards less the number of calls that returned \<^verbatim>\<open>false\<close>; whenever some call
  returned \<^verbatim>\<open>false\<close> the array is shorter than the list of linked boards.
\<close>

theorem move_results:
  assumes run: "invoke_MoveIssueToInProgress r param (s, []) = (results, (s', log))"
  shows "list_all2 referencesBoard (filter success results) (returnedTrue log)
    \<and> length results = length (returnedTrue log) + length (filter threw log)
    \<and> ((\<forall>ev \<in> set log. \<not> threw ev) \<longrightarrow>
          map fst log = map (\<lambda>p. MoveIssueToColumn p (owner param) (repo param)
                (issueNumber param) (projectColumnIssueInProgress param) (token param))
                (projects param)
          \<and> list_all2 referencesBoard results (returnedTrue log)
          \<and> length results = length (projects param)
                - length (filter (\<lambda>ev. snd ev = Inr False) log))
    \<and> ((\<exists>ev \<in> set log. snd ev = Inr False) \<longrightarrow> length results < length (projects param))"
proof -
  let ?c = "projectColumnIssueInProgress param"
  let ?moved = "\<lambda>project. \<lparr> result_id = taskId_MoveIssueToInProgress,
                  success = True, executed = True,
                  steps = Some [''Moved issue to `'' @ ?c @ ''` in [''
                                  @ project_title project @ ''](''
                                  @ publicUrl project @ '').''],
                  errors = None \<rparr>"
  from invoke_Move_log(4) [OF run] obtain failure where failure:
    "length failure = length (filter threw log)" "\<forall>res \<in> set failure. \<not> success res"
    "results = map ?moved (returnedTrue log) @ failure"
    by blast
  note calls = invoke_Move_log(1) [OF run]
  note full = invoke_Move_log(3) [OF run]
  have step: "referencesBoard (?moved p) p" for p
    using step_references [of taskId_MoveIssueToInProgress
        "''Moved issue to `'' @ ?c @ ''` in [''" p "''](''" "'').''"]
    by simp
  have successes: "filter success results = map ?moved (returnedTrue log)"
    unfolding failure(3) using failure(2) by (simp add: filter_map comp_def)
  have a: "list_all2 referencesBoard (filter success results) (returnedTrue log)"
    unfolding successes using step by (simp add: list_all2_map1 list_all2_same)
  have b: "length results = length (returnedTrue log) + length (filter threw log)"
    unfolding failure(3) using failure(1) by simp
  have len_log: "length log \<le> length (projects param)"
  proof -
    have "length (map fst log) \<le> length (projects param)"
      unfolding calls by simp
    then show ?thesis by simp
  qed
  have count: "length (returnedTrue log) + length (filter (\<lambda>ev. snd ev = Inr False) log)
     + length (filter threw log) = length log"
    using outcome_count [of log] by (simp add: returnedTrue_def)
  have c: "(\<forall>ev \<in> set log. \<not> threw ev) \<longrightarrow>
          map fst log = map (\<lambda>p. MoveIssueToColumn p (owner param) (repo param)
                (issueNumber param) ?c (token param)) (projects param)
          \<and> list_all2 referencesBoard results (returnedTrue log)
          \<and> length results = length (projects param)
                - length (filter (\<lambda>ev. snd ev = Inr False) log)"
  proof
    assume quiet: "\<forall>ev \<in> set log. \<not> threw ev"
    with full have len: "length log = length (projects param)" by simp
    from quiet have none: "filter threw log = []" by simp
    with failure(1) have "failure = []" by simp
    with failure(3) have res: "results = map ?moved (returnedTrue log)" by simp
    have c1: "map fst log = map (\<lambda>p. MoveIssueToColumn p (owner param) (repo param)
                (issueNumber param) ?c (token param)) (projects param)"
      using calls len by simp
    have c2: "list_all2 referencesBoard results (returnedTrue log)"
      unfolding res using step by (simp add: list_all2_map1 list_all2_same)
    have c3: "length results = length (projects param)
                - length (filter (\<lambda>ev. snd ev = Inr False) log)"
      using count none len b by simp
    from c1 c2 c3 show "map fst log = map (\<lambda>p. MoveIssueToColumn p (owner param) (repo param)
                (issueNumber param) ?c (token param)) (projects param)
          \<and> list_all2 referencesBoard results (returnedTrue log)
          \<and> length results = length (projects param)
                - length (filter (\<lambda>ev. snd ev = Inr False) log)"
      by blast
  qed
  have d: "(\<exists>ev \<in> set log. snd ev = Inr False) \<longrightarrow> length results < length (projects param)"
  proof
    assume "\<exists>ev \<in> set log. snd ev = Inr False"
    then have "filter (\<lambda>ev. snd ev = Inr False) log \<noteq> []"
      by (simp add: filter_empty_conv)
    then have "0 < length (filter (\<lambda>ev. snd ev = Inr False) log)" by simp
    with count b len_log show "length results < length (projects param)" by linarith
  qed
  from a b c d show ?thesis by blast
qed

text \<open>
  The theorem at two linked boards of which the first answers \<^verbatim>\<open>true\<close> and the
  second \<^verbatim>\<open>false\<close>: one result for two boards.
\<close>

theorem move_results_witness:
  "filter threw (snd (snd (invoke_MoveIssueToInProgress (boardAnswering firstMoves) twoBoards ((), []))))
     = []
   \<and> returnedTrue (snd (snd (invoke_MoveIssueToInProgress (boardAnswering firstMoves) twoBoards ((), []))))
       = [boardP1]
   \<and> list_all2 referencesBoard
       (fst (invoke_MoveIssueToInProgress (boardAnswering firstMoves) twoBoards ((), []))) [boardP1]
   \<and> length (fst (invoke_MoveIssueToInProgress (boardAnswering firstMoves) twoBoards ((), []))) = 1
   \<and> length (projects twoBoards) = 2"
proof -
  let ?run = "invoke_MoveIssueToInProgress (boardAnswering firstMoves) twoBoards ((), [])"
  have run: "?run = (fst ?run, ((), snd (snd ?run)))" by (simp add: prod_eq_iff)
  have quiet: "\<forall>ev \<in> set (snd (snd ?run)). \<not> threw ev" by code_simp
  have true: "returnedTrue (snd (snd ?run)) = [boardP1]" by code_simp
  have false: "length (filter (\<lambda>ev. snd ev = Inr False) (snd (snd ?run))) = 1" by code_simp
  have two: "length (projects twoBoards) = 2" by code_simp
  from quiet have none: "filter threw (snd (snd ?run)) = []" by simp
  from move_results [OF run] quiet none true false two show ?thesis by simp
qed

text \<open>
  Claim C4. When priority labelling is disabled, or no board is linked, or the current
  priority label is none of the configured high, medium and low names,
  \<open>CheckPriorityPullRequestSizeUseCase.invoke\<close> and \<open>CheckPriorityIssueSizeUseCase.invoke\<close>
  return exactly one result, with \<^verbatim>\<open>success:true\<close> and \<^verbatim>\<open>executed:false\<close>, and
  leave the remote state and the record of calls as they were: the priority-set endpoint
  is not called.
\<close>

theorem priority_noop:
  assumes "\<not> priorityLabelOnIssueProcessable (labels param) \<or> projects param = []
     \<or> priorityLabelOnIssue (labels param)
          \<notin> {priorityHigh (labels param), priorityMedium (labels param), priorityLow (labels param)}"
  shows "invoke_CheckPriorityPullRequestSize r param st =
           ([\<lparr> result_id = taskId_CheckPriorityPullRequestSize, success = True, executed = False,
               steps = None, errors = None \<rparr>], st)
       \<and> invoke_CheckPriorityIssueSize r param st =
           ([\<lparr> result_id = taskId_CheckPriorityIssueSize, success = True, executed = False,
               steps = None, errors = None \<rparr>], st)"
  using assms
  by (auto simp: invoke_CheckPriorityPullRequestSize_def invoke_CheckPriorityIssueSize_def
      priorityToken_def Let_def)

text \<open>
  The theorem at a label outside the configured set, with two linked boards and a board
  API that would answer.
\<close>

theorem priority_noop_witness:
  "priorityLabelOnIssue (labelsP0\<lparr> priorityLabelOnIssue := ''other'' \<rparr>)
     \<notin> {priorityHigh (labelsP0\<lparr> priorityLabelOnIssue := ''other'' \<rparr>),
         priorityMedium (labelsP0\<lparr> priorityLabelOnIssue := ''other'' \<rparr>),
         priorityLow (labelsP0\<lparr> priorityLabelOnIssue := ''other'' \<rparr>)}
   \<and> invoke_CheckPriorityPullRequestSize (boardAnswering firstMoves)
        (twoBoards\<lparr> labels := labelsP0\<lparr> priorityLabelOnIssue := ''other'' \<rparr> \<rparr>) ((), []) =
           ([\<lparr> result_id = taskId_CheckPriorityPullRequestSize, success = True, executed = False,
               steps = None, errors = None \<rparr>], ((), []))
   \<and> invoke_CheckPriorityIssueSize (boardAnswering firstMoves)
        (twoBoards\<lparr> labels := labelsP0\<lparr> priorityLabelOnIssue := ''other'' \<rparr> \<rparr>) ((), []) =
           ([\<lparr> result_id = taskId_CheckPriorityIssueSize, success = True, executed = False,
               steps = None, errors = None \<rparr>], ((), []))"
proof -
  have outside: "priorityLabelOnIssue (labelsP0\<lparr> priorityLabelOnIssue := ''other'' \<rparr>)
     \<notin> {priorityHigh (labelsP0\<lparr> priorityLabelOnIssue := ''other'' \<rparr>),
         priorityMedium (labelsP0\<lparr> priorityLabelOnIssue := ''other'' \<rparr>),
         priorityLow (labelsP0\<lparr> priorityLabelOnIssue := ''other'' \<rparr>)}"
    by (simp add: labelsP0_def)
  then have "\<not> priorityLabelOnIssueProcessable
        (labels (twoBoards\<lparr> labels := labelsP0\<lparr> priorityLabelOnIssue := ''other'' \<rparr> \<rparr>))
     \<or> projects (twoBoards\<lparr> labels := labelsP0\<lparr> priorityLabelOnIssue := ''other'' \<rparr> \<rparr>) = []
     \<or> priorityLabelOnIssue (labels (twoBoards\<lparr> labels := labelsP0\<lparr> priorityLabelOnIssue := ''other'' \<rparr> \<rparr>))
          \<notin> {priorityHigh (labels (twoBoards\<lparr> labels := labelsP0\<lparr> priorityLabelOnIssue := ''other'' \<rparr> \<rparr>)),
              priorityMedium (labels (twoBoards\<lparr> labels := labelsP0\<lparr> priorityLabelOnIssue := ''other'' \<rparr> \<rparr>)),
              priorityLow (labels (twoBoards\<lparr> labels := labelsP0\<lparr> priorityLabelOnIssue := ''other'' \<rparr> \<rparr>))}"
    by simp
  from priority_noop [OF this, of "boardAnswering firstMoves" "((), [])"] outside
  show ?thesis by simp
qed

text \<open>
  Claim C10. \<open>CheckPriorityPullRequestSizeUseCase.invoke\<close> compares the current priority
  label with the configured high, medium and low names in that order, by equality of
  strings: with priority labelling enabled and a linked board, a label equal to the high
  name makes every call carry \<^verbatim>\<open>P0\<close> (and at least one call is made), one that is
  not but equals the medium name \<^verbatim>\<open>P1\<close>, one that equals only the low name
  \<^verbatim>\<open>P2\<close>; a label different from all three, even one that has the lower-case form of
  a configured name, gets the no-op result with \<^verbatim>\<open>executed:false\<close> and no call.
\<close>

theorem priority_exact_match:
  assumes enabled: "priorityLabelOnIssueProcessable (labels param)"
    and linked: "projects param \<noteq> []"
    and run: "invoke_CheckPriorityPullRequestSize r param (s, []) = (results, (s', log))"
  shows "(priorityLabelOnIssue (labels param) = priorityHigh (labels param) \<longrightarrow>
            log \<noteq> [] \<and> (\<forall>ev \<in> set log. callLabel (fst ev) = ''P0''))
     \<and> (priorityLabelOnIssue (labels param) \<noteq> priorityHigh (labels param)
          \<and> priorityLabelOnIssue (labels param) = priorityMedium (labels param) \<longrightarrow>
            log \<noteq> [] \<and> (\<forall>ev \<in> set log. callLabel (fst ev) = ''P1''))
     \<and> (priorityLabelOnIssue (labels param) \<noteq> priorityHigh (labels param)
          \<and> priorityLabelOnIssue (labels param) \<noteq> priorityMedium (labels param)
          \<and> priorityLabelOnIssue (labels param) = priorityLow (labels param) \<longrightarrow>
            log \<noteq> [] \<and> (\<forall>ev \<in> set log. callLabel (fst ev) = ''P2''))
     \<and> (priorityLabelOnIssue (labels param) \<noteq> priorityHigh (labels param)
          \<and> priorityLabelOnIssue (labels param) \<noteq> priorityMedium (labels param)
          \<and> priorityLabelOnIssue (labels param) \<noteq> priorityLow (labels param)
          \<and> toLowerCase (priorityLabelOnIssue (labels param))
               \<in> {toLowerCase (priorityHigh (labels param)),
                   toLowerCase (priorityMedium (labels param)),
                   toLowerCase (priorityLow (labels param))} \<longrightarrow>
            results = [\<lparr> result_id = taskId_CheckPriorityPullRequestSize, success = True,
                          executed = False, steps = None, errors = None \<rparr>]
            \<and> log = [] \<and> s' = s)"
proof -
  have calls: "log \<noteq> [] \<and> (\<forall>ev \<in> set log. callLabel (fst ev) = l)"
    if "setPriorityOrFail r param l (s, []) = (results, (s', log))" for l
  proof -
    from setPriorityOrFail_log(1) [OF that]
    have "set (map fst log) \<subseteq> set (map (\<lambda>p. SetTaskPriority p (owner param) (repo param)
                     (pullRequest_number param) l (token param)) (projects param))"
      by (metis set_take_subset)
    then have "\<forall>ev \<in> set log. callLabel (fst ev) = l"
      by (auto simp: callLabel_def)
    with setPriorityOrFail_log(2) [OF that] linked show ?thesis by simp
  qed
  have guard: "\<not> (\<not> priorityLabelOnIssueProcessable (labels param) \<or> length (projects param) = 0)"
    using enabled linked by simp
  have high: "priorityLabelOnIssue (labels param) = priorityHigh (labels param) \<longrightarrow>
            log \<noteq> [] \<and> (\<forall>ev \<in> set log. callLabel (fst ev) = ''P0'')"
    using run guard calls [of "''P0''"]
    by (auto simp: invoke_CheckPriorityPullRequestSize_def Let_def split: if_splits)
  have medium: "priorityLabelOnIssue (labels param) \<noteq> priorityHigh (labels param)
          \<and> priorityLabelOnIssue (labels param) = priorityMedium (labels param) \<longrightarrow>
            log \<noteq> [] \<and> (\<forall>ev \<in> set log. callLabel (fst ev) = ''P1'')"
    using run guard calls [of "''P1''"]
    by (auto simp: invoke_CheckPriorityPullRequestSize_def Let_def split: if_splits)
  have low: "priorityLabelOnIssue (labels param) \<noteq> priorityHigh (labels param)
          \<and> priorityLabelOnIssue (labels param) \<noteq> priorityMedium (labels param)
          \<and> priorityLabelOnIssue (labels param) = priorityLow (labels param) \<longrightarrow>
            log \<noteq> [] \<and> (\<forall>ev \<in> set log. callLabel (fst ev) = ''P2'')"
    using run guard calls [of "''P2''"]
    by (auto simp: invoke_CheckPriorityPullRequestSize_def Let_def split: if_splits)
  have other: "priorityLabelOnIssue (labels param) \<noteq> priorityHigh (labels param)
          \<and> priorityLabelOnIssue (labels param) \<noteq> priorityMedium (labels param)
          \<and> priorityLabelOnIssue (labels param) \<noteq> priorityLow (labels param)
          \<and> toLowerCase (priorityLabelOnIssue (labels param))
               \<in> {toLowerCase (priorityHigh (labels param)),
                   toLowerCase (priorityMedium (labels param)),
                   toLowerCase (priorityLow (labels param))} \<longrightarrow>
            results = [\<lparr> result_id = taskId_CheckPriorityPullRequestSize, success = True,
                          executed = False, steps = None, errors = None \<rparr>]
            \<and> log = [] \<and> s' = s"
    using run guard
    by (auto simp: invoke_CheckPriorityPullRequestSize_def Let_def)
  from high medium low other show ?thesis by blast
qed


text \<open>
  The theorem at the label \<^verbatim>\<open>p0\<close> with the configured names \<^verbatim>\<open>P0\<close>,
  \<^verbatim>\<open>P1\<close>, \<^verbatim>\<open>P2\<close> (no call, no-op result), and at the label \<^verbatim>\<open>P0\<close>
  itself (calls that carry \<^verbatim>\<open>P0\<close>).
\<close>

theorem priority_exact_match_witness:
  "toLowerCase ''p0'' = toLowerCase ''P0'' \<and> ''p0'' \<noteq> ''P0''
   \<and> invoke_CheckPriorityPullRequestSize (boardAnswering firstMoves)
        (twoBoards\<lparr> labels := labelsP0\<lparr> priorityLabelOnIssue := ''p0'' \<rparr> \<rparr>) ((), [])
       = ([\<lparr> result_id = taskId_CheckPriorityPullRequestSize, success = True,
              executed = False, steps = None, errors = None \<rparr>], ((), []))
   \<and> snd (snd (invoke_CheckPriorityPullRequestSize (boardAnswering firstMoves) twoBoards ((), [])))
        \<noteq> []
   \<and> map (callLabel \<circ> fst)
        (snd (snd (invoke_CheckPriorityPullRequestSize (boardAnswering firstMoves)
                               twoBoards ((), []))))
       = [''P0'', ''P0'']"
proof -
  let ?lower = "twoBoards\<lparr> labels := labelsP0\<lparr> priorityLabelOnIssue := ''p0'' \<rparr> \<rparr>"
  let ?run_lower = "invoke_CheckPriorityPullRequestSize (boardAnswering firstMoves) ?lower ((), [])"
  let ?run = "invoke_CheckPriorityPullRequestSize (boardAnswering firstMoves) twoBoards ((), [])"
  have lower: "toLowerCase ''p0'' = toLowerCase ''P0''" by code_simp
  have enabled_lower: "priorityLabelOnIssueProcessable (labels ?lower)"
    by (simp add: twoBoards_def labelsP0_def)
  have linked_lower: "projects ?lower \<noteq> []"
    by (simp add: twoBoards_def)
  have run_lower: "?run_lower = (fst ?run_lower, (fst (snd ?run_lower), snd (snd ?run_lower)))"
    by (simp add: prod_eq_iff)
  have names: "priorityLabelOnIssue (labels ?lower) = ''p0''"
    "priorityHigh (labels ?lower) = ''P0''" "priorityMedium (labels ?lower) = ''P1''"
    "priorityLow (labels ?lower) = ''P2''"
    by (simp_all add: labelsP0_def)
  have enabled: "priorityLabelOnIssueProcessable (labels twoBoards)"
    by (simp add: twoBoards_def labelsP0_def)
  have linked: "projects twoBoards \<noteq> []"
    by (simp add: twoBoards_def)
  have run: "?run = (fst ?run, (fst (snd ?run), snd (snd ?run)))"
    by (simp add: prod_eq_iff)
  have high: "priorityLabelOnIssue (labels twoBoards) = priorityHigh (labels twoBoards)"
    by (simp add: twoBoards_def labelsP0_def)
  from priority_exact_match [OF enabled_lower linked_lower run_lower] names lower
  have "fst ?run_lower = [\<lparr> result_id = taskId_CheckPriorityPullRequestSize, success = True,
              executed = False, steps = None, errors = None \<rparr>]
        \<and> snd (snd ?run_lower) = []"
    by simp
  then have noop: "?run_lower = ([\<lparr> result_id = taskId_CheckPriorityPullRequestSize, success = True,
              executed = False, steps = None, errors = None \<rparr>], ((), []))"
    by (simp add: prod_eq_iff)
  have two: "length (snd (snd ?run)) = 2" by code_simp
  from priority_exact_match [OF enabled linked run] high
  have "snd (snd ?run) \<noteq> [] \<and> (\<forall>ev \<in> set (snd (snd ?run)). callLabel (fst ev) = ''P0'')"
    by simp
  then have "\<forall>l \<in> set (map (callLabel \<circ> fst) (snd (snd ?run))). l = ''P0''"
    by simp
  with two have "map (callLabel \<circ> fst) (snd (snd ?run)) = [''P0'', ''P0'']"
    by (cases "snd (snd ?run)"; cases "tl (snd (snd ?run))") auto
  moreover from two have "snd (snd ?run) \<noteq> []" by auto
  ultimately show ?thesis using lower noop by simp
qed

text \<open>
  Claim C2, as the code has it. When a priority-set call throws during
  \<open>CheckPriorityPullRequestSizeUseCase.invoke\<close>, it is the last call made, and the
  results are one success result for each board whose call returned \<^verbatim>\<open>true\<close> before,
  followed by exactly one failure result with \<^verbatim>\<open>success:false\<close>,
  \<^verbatim>\<open>executed:true\<close>, a step that contains the word \<^verbatim>\<open>problem\<close> and the string
  form of the error; the failure result is the only result when no earlier call returned
  \<^verbatim>\<open>true\<close>.
\<close>

theorem priority_throw_results:
  assumes run: "invoke_CheckPriorityPullRequestSize r param (s, []) = (results, (s', log))"
    and loud: "\<exists>ev \<in> set log. threw ev"
  shows "\<exists>error. snd (last log) = Inl error
     \<and> (\<forall>ev \<in> set (butlast log). \<not> threw ev)
     \<and> results \<noteq> []
     \<and> last results =
          \<lparr> result_id = taskId_CheckPriorityPullRequestSize, success = False, executed = True,
            steps = Some [''Tried to check the priority of the issue, but there was a problem.''],
            errors = Some [toStringOrUnknown error] \<rparr>
     \<and> includes_str ''Tried to check the priority of the issue, but there was a problem.''
          ''problem''
     \<and> list_all2 referencesBoard (butlast results) (returnedTrue log)
     \<and> length results = length (returnedTrue log) + 1
     \<and> (returnedTrue log = [] \<longrightarrow> length results = 1)"
proof -
  from loud have "log \<noteq> []" by auto
  with run obtain l where orFail: "setPriorityOrFail r param l (s, []) = (results, (s', log))"
    by (auto simp: invoke_CheckPriorityPullRequestSize_def Let_def split: if_splits)
  let ?set = "\<lambda>project. \<lparr> result_id = taskId_CheckPriorityPullRequestSize,
                  success = True, executed = True,
                  steps = Some [''Priority set to `'' @ l @ ''` in [''
                                  @ project_title project @ ''](''
                                  @ publicUrl project @ '').''],
                  errors = None \<rparr>"
  from setPriorityOrFail_log(5) [OF orFail] loud obtain error where error:
    "snd (last log) = Inl error"
    "results = map ?set (returnedTrue log)
                @ [\<lparr> result_id = taskId_CheckPriorityPullRequestSize, success = False,
                     executed = True,
                     steps = Some [''Tried to check the priority of the issue, but there was a problem.''],
                     errors = Some [toStringOrUnknown error] \<rparr>]"
    by blast
  have step: "referencesBoard (?set p) p" for p
    using step_references [of taskId_CheckPriorityPullRequestSize
        "''Priority set to `'' @ l @ ''` in [''" p "''](''" "'').''"]
    by simp
  have before: "\<forall>ev \<in> set (butlast log). \<not> threw ev"
    by (rule setPriorityOrFail_log(3) [OF orFail])
  have word: "includes_str ''Tried to check the priority of the issue, but there was a problem.''
          ''problem''"
    by code_simp
  have successes: "list_all2 referencesBoard (butlast results) (returnedTrue log)"
    unfolding error(2) using step by (simp add: butlast_append list_all2_map1 list_all2_same)
  have len: "length results = length (returnedTrue log) + 1"
    unfolding error(2) by simp
  have last: "last results =
          \<lparr> result_id = taskId_CheckPriorityPullRequestSize, success = False, executed = True,
            steps = Some [''Tried to check the priority of the issue, but there was a problem.''],
            errors = Some [toStringOrUnknown error] \<rparr>"
    unfolding error(2) by simp
  have ne: "results \<noteq> []" unfolding error(2) by simp
  from error(1) before ne last word successes len show ?thesis
    by (intro exI [of _ error]) simp
qed

text \<open>
  The theorem at two linked boards where the first call returns \<^verbatim>\<open>true\<close> and the
  second throws: two results, the success of the first board and the failure.
\<close>

theorem priority_throw_results_witness:
  "(\<exists>ev \<in> set (snd (snd (invoke_CheckPriorityPullRequestSize (boardAnswering firstOnly)
                            twoBoards ((), [])))). threw ev)
   \<and> returnedTrue (snd (snd (invoke_CheckPriorityPullRequestSize (boardAnswering firstOnly)
                            twoBoards ((), [])))) = [boardP1]
   \<and> list_all2 referencesBoard
        (butlast (fst (invoke_CheckPriorityPullRequestSize (boardAnswering firstOnly)
                            twoBoards ((), [])))) [boardP1]
   \<and> length (fst (invoke_CheckPriorityPullRequestSize (boardAnswering firstOnly)
                            twoBoards ((), []))) = 2"
proof -
  let ?run = "invoke_CheckPriorityPullRequestSize (boardAnswering firstOnly) twoBoards ((), [])"
  have run: "?run = (fst ?run, (fst (snd ?run), snd (snd ?run)))" by (simp add: prod_eq_iff)
  have loud: "\<exists>ev \<in> set (snd (snd ?run)). threw ev" by code_simp
  have true: "returnedTrue (snd (snd ?run)) = [boardP1]" by code_simp
  from priority_throw_results [OF run loud] loud true show ?thesis by auto
qed

text \<open>
  Against claim C2 as stated: with two linked boards, the first call returning
  \<^verbatim>\<open>true\<close> and the second throwing, \<open>invoke\<close> returns two results, and the first
  is the success entry of the board processed before the throw.
\<close>

theorem priority_throw_counterexample:
  "projects twoBoards \<noteq> []
   \<and> threw (last (snd (snd (invoke_CheckPriorityPullRequestSize (boardAnswering firstOnly)
                            twoBoards ((), [])))))
   \<and> length (fst (invoke_CheckPriorityPullRequestSize (boardAnswering firstOnly)
                            twoBoards ((), []))) = 2
   \<and> success (hd (fst (invoke_CheckPriorityPullRequestSize (boardAnswering firstOnly)
                            twoBoards ((), []))))
   \<and> \<not> success (last (fst (invoke_CheckPriorityPullRequestSize (boardAnswering firstOnly)
                            twoBoards ((), []))))"
  by code_simp

section \<open>Properties of \<open>InitialSetupUseCase\<close>\<close>

lemma setup_ensureLabels_log:
  assumes "repository_ensureLabels env (owner param) (repo param) (labels param) (token param) s
             = (l, s1)"
  shows "\<exists>r. setup_ensureLabels env param (s, lg) = (r, (s1, lg @ [EnsureLabels l]))
           \<and> batch_errors r = stageErrors (EnsureLabels l)
           \<and> checked_success r = (stageErrors (EnsureLabels l) = [])"
  using assms by (cases l) (simp_all add: setup_ensureLabels_def perform_def)

lemma setup_ensureProgressLabels_log:
  assumes "repository_ensureProgressLabels env (owner param) (repo param) (token param) s
             = (p, s1)"
  shows "\<exists>r. setup_ensureProgressLabels env param (s, lg)
                 = (r, (s1, lg @ [EnsureProgressLabels p]))
           \<and> batch_errors r = stageErrors (EnsureProgressLabels p)"
  using assms by (cases p) (simp_all add: setup_ensureProgressLabels_def perform_def)

lemma setup_ensureIssueTypes_log:
  assumes "repository_ensureIssueTypes env (owner param) (token param) s = (t, s1)"
  shows "\<exists>r. setup_ensureIssueTypes env param (s, lg) = (r, (s1, lg @ [EnsureIssueTypes t]))
           \<and> batch_errors r = stageErrors (EnsureIssueTypes t)
           \<and> checked_success r = (stageErrors (EnsureIssueTypes t) = [])"
  using assms by (cases t) (simp_all add: setup_ensureIssueTypes_def perform_def)

lemma ensureStages_log:
  assumes run: "ensureStages env param steps0 [] (s, log0) = (results, (s', log))"
  shows "\<exists>l p t res. log = log0 @ [EnsureLabels l, EnsureProgressLabels p, EnsureIssueTypes t]
     \<and> results = [res] \<and> executed res
     \<and> accumulatedErrors res
          = stageErrors (EnsureLabels l) @ stageErrors (EnsureProgressLabels p)
              @ stageErrors (EnsureIssueTypes t)
     \<and> (success res \<longleftrightarrow> accumulatedErrors res = [])
     \<and> (success res \<longleftrightarrow> errors res = None)"
proof -
  obtain l s1 where l: "repository_ensureLabels env (owner param) (repo param) (labels param)
                      (token param) s = (l, s1)"
    by (metis surj_pair)
  obtain p s2 where p: "repository_ensureProgressLabels env (owner param) (repo param)
                      (token param) s1 = (p, s2)"
    by (metis surj_pair)
  obtain t s3 where t: "repository_ensureIssueTypes env (owner param) (token param) s2 = (t, s3)"
    by (metis surj_pair)
  from setup_ensureLabels_log [OF l, of log0] obtain r1 where r1:
    "setup_ensureLabels env param (s, log0) = (r1, (s1, log0 @ [EnsureLabels l]))"
    "batch_errors r1 = stageErrors (EnsureLabels l)"
    "checked_success r1 = (stageErrors (EnsureLabels l) = [])"
    by blast
  from setup_ensureProgressLabels_log [OF p, of "log0 @ [EnsureLabels l]"] obtain r2 where r2:
    "setup_ensureProgressLabels env param (s1, log0 @ [EnsureLabels l])
       = (r2, (s2, log0 @ [EnsureLabels l, EnsureProgressLabels p]))"
    "batch_errors r2 = stageErrors (EnsureProgressLabels p)"
    by auto
  from setup_ensureIssueTypes_log [OF t, of "log0 @ [EnsureLabels l, EnsureProgressLabels p]"]
  obtain r3 where r3:
    "setup_ensureIssueTypes env param (s2, log0 @ [EnsureLabels l, EnsureProgressLabels p])
       = (r3, (s3, log0 @ [EnsureLabels l, EnsureProgressLabels p, EnsureIssueTypes t]))"
    "batch_errors r3 = stageErrors (EnsureIssueTypes t)"
    "checked_success r3 = (stageErrors (EnsureIssueTypes t) = [])"
    by auto
  define e1 where "e1 = stageErrors (EnsureLabels l)"
  define e2 where "e2 = stageErrors (EnsureProgressLabels p)"
  define e3 where "e3 = stageErrors (EnsureIssueTypes t)"
  note facts = r1(2,3) [folded e1_def] r2(2) [folded e2_def] r3(2,3) [folded e3_def]
  from run have log: "log = log0 @ [EnsureLabels l, EnsureProgressLabels p, EnsureIssueTypes t]"
    by (simp add: ensureStages_def r1(1) r2(1) r3(1) Let_def)
  from run obtain stp where res: "results = [\<lparr> result_id = taskId_InitialSetup,
        success = (length (e1 @ e2 @ e3) = 0), executed = True, steps = Some stp,
        errors = (if length (e1 @ e2 @ e3) > 0 then Some (e1 @ e2 @ e3) else None) \<rparr>]"
    unfolding ensureStages_def r1(1) r2(1) r3(1) prod.case Let_def facts
    by (cases "e1 = []"; cases "e2 = []"; cases "e3 = []") fastforce+
  show ?thesis
    apply (rule exI [of _ l], rule exI [of _ p], rule exI [of _ t])
    apply (rule exI [of _ "hd results"])
    unfolding res log e1_def [symmetric] e2_def [symmetric] e3_def [symmetric]
    by (simp add: accumulatedErrors_def)
qed

lemma invoke_InitialSetup_paths:
  assumes run: "invoke_InitialSetup env param (s, []) = (results, (s', log))"
  shows "(\<exists>e. log = [EnsureGitHubDirs (Inl e)]
            \<and> results = [\<lparr> result_id = taskId_InitialSetup, success = False, executed = True,
                  steps = Some [],
                  errors = Some [''Error ejecutando setup inicial: '' @ interpolate e] \<rparr>])
     \<or> (\<exists>e. log = [EnsureGitHubDirs (Inr ()), CopySetupFiles (Inl e)]
            \<and> results = [\<lparr> result_id = taskId_InitialSetup, success = False, executed = True,
                  steps = Some [],
                  errors = Some [''Error ejecutando setup inicial: '' @ interpolate e] \<rparr>])
     \<or> (\<exists>files e stp. log = [EnsureGitHubDirs (Inr ()), CopySetupFiles (Inr files),
                               HasValidSetupToken (Inl e)]
            \<and> results = [\<lparr> result_id = taskId_InitialSetup, success = False, executed = True,
                  steps = Some stp,
                  errors = Some [''Error ejecutando setup inicial: '' @ interpolate e] \<rparr>])
     \<or> (\<exists>files stp. log = [EnsureGitHubDirs (Inr ()), CopySetupFiles (Inr files),
                               HasValidSetupToken (Inr False)]
            \<and> results = [\<lparr> result_id = taskId_InitialSetup, success = False, executed = True,
                  steps = Some stp,
                  errors = Some [''PERSONAL_ACCESS_TOKEN must be set (environment or .env) with a valid token to run setup.''] \<rparr>])
     \<or> (\<exists>files e stp. log = [EnsureGitHubDirs (Inr ()), CopySetupFiles (Inr files),
                               HasValidSetupToken (Inr True), GetUserFromToken (Inl e)]
            \<and> results = [\<lparr> result_id = taskId_InitialSetup, success = False, executed = True,
                  steps = Some stp,
                  errors = Some [''No se pudo verificar el acceso a GitHub: '' @ interpolate e] \<rparr>])
     \<or> (\<exists>files user l p t res. log = [EnsureGitHubDirs (Inr ()), CopySetupFiles (Inr files),
                               HasValidSetupToken (Inr True), GetUserFromToken (Inr user),
                               EnsureLabels l, EnsureProgressLabels p, EnsureIssueTypes t]
            \<and> results = [res] \<and> executed res
            \<and> accumulatedErrors res
                 = stageErrors (EnsureLabels l) @ stageErrors (EnsureProgressLabels p)
                     @ stageErrors (EnsureIssueTypes t)
            \<and> (success res \<longleftrightarrow> accumulatedErrors res = [])
            \<and> (success res \<longleftrightarrow> errors res = None))"
proof -
  obtain d s1 where d: "ensureGitHubDirs env s = (d, s1)" by (metis surj_pair)
  obtain c s2 where c: "copySetupFiles env s1 = (c, s2)" by (metis surj_pair)
  obtain v s3 where v: "hasValidSetupToken env s2 = (v, s3)" by (metis surj_pair)
  obtain u s4 where u: "getUserFromToken env (token param) s3 = (u, s4)" by (metis surj_pair)
  show ?thesis
  proof (cases d)
    case (Inl e)
    with run d show ?thesis
      by (auto simp: invoke_InitialSetup_def setupBody_def perform_def)
  next
    case dirs: (Inr unit)
    show ?thesis
    proof (cases c)
      case (Inl e)
      with run d c dirs show ?thesis
        by (auto simp: invoke_InitialSetup_def setupBody_def perform_def)
    next
      case files: (Inr files)
      show ?thesis
      proof (cases v)
        case (Inl e)
        with run d c v dirs files show ?thesis
          by (auto simp: invoke_InitialSetup_def setupBody_def perform_def Let_def)
      next
        case valid: (Inr valid)
        show ?thesis
        proof (cases valid)
          case False
          with run d c v dirs files valid show ?thesis
            by (auto simp: invoke_InitialSetup_def setupBody_def perform_def Let_def)
        next
          case True
          show ?thesis
          proof (cases u)
            case (Inl e)
            with run d c v u dirs files valid True show ?thesis
              by (auto simp: invoke_InitialSetup_def setupBody_def perform_def Let_def
                  verifyGitHubAccess_def)
          next
            case (Inr user)
            let ?log4 = "[EnsureGitHubDirs (Inr ()), CopySetupFiles (Inr files),
                               HasValidSetupToken (Inr True), GetUserFromToken (Inr user)]"
            from run d c v u dirs files valid True Inr
            obtain stp where "ensureStages env param stp [] (s4, ?log4) = (results, (s', log))"
              by (auto simp: invoke_InitialSetup_def setupBody_def perform_def Let_def
                  verifyGitHubAccess_def split: prod.splits)
            from ensureStages_log [OF this] show ?thesis by auto
          qed
        qed
      qed
    qed
  qed
qed


text \<open>
  Claim C9. \<open>InitialSetupUseCase.invoke\<close> returns exactly one result, whichever path it
  takes (token gate, GitHub access, normal completion, top-level catch); in that result
  \<^verbatim>\<open>success\<close> is true if and only if the accumulated list of errors is empty, and if
  and only if the \<^verbatim>\<open>errors\<close> field is left out.
\<close>

theorem setup_success_iff_no_errors:
  "\<exists>res. fst (invoke_InitialSetup env param (s, [])) = [res]
     \<and> (success res \<longleftrightarrow> accumulatedErrors res = [])
     \<and> (success res \<longleftrightarrow> errors res = None)
     \<and> executed res"
proof -
  let ?run = "invoke_InitialSetup env param (s, [])"
  have run: "?run = (fst ?run, (fst (snd ?run), snd (snd ?run)))"
    by (simp add: prod_eq_iff)
  from invoke_InitialSetup_paths [OF run] show ?thesis
    by (elim disjE exE conjE) (simp_all add: accumulatedErrors_def)
qed

text \<open>
  Claim C3, as the code has it. With the record of calls of one run of
  \<open>InitialSetupUseCase.invoke\<close>: once the GitHub access check has passed, all three of
  ensuring labels, ensuring progress labels and ensuring issue types are called, in that
  order and whatever the earlier ones answered, and the errors of the single result are the
  errors of the failed stages, in order. An invalid token ends the run after three calls,
  a failed GitHub access check after four, and a throwing copy of the setup files after
  two, each with a single failure result.
\<close>

theorem setup_stage_failures:
  assumes run: "invoke_InitialSetup env param (s, []) = (results, (s', log))"
  shows "(\<forall>user. GetUserFromToken (Inr user) \<in> set log \<longrightarrow>
            (\<exists>files l p t res.
               log = [EnsureGitHubDirs (Inr ()), CopySetupFiles (Inr files),
                      HasValidSetupToken (Inr True), GetUserFromToken (Inr user),
                      EnsureLabels l, EnsureProgressLabels p, EnsureIssueTypes t]
               \<and> results = [res]
               \<and> accumulatedErrors res
                    = stageErrors (EnsureLabels l) @ stageErrors (EnsureProgressLabels p)
                        @ stageErrors (EnsureIssueTypes t)
               \<and> (success res \<longleftrightarrow> accumulatedErrors res = [])))
     \<and> (HasValidSetupToken (Inr False) \<in> set log \<longrightarrow>
            (\<exists>files res.
               log = [EnsureGitHubDirs (Inr ()), CopySetupFiles (Inr files),
                      HasValidSetupToken (Inr False)]
               \<and> results = [res] \<and> \<not> success res
               \<and> errors res = Some [''PERSONAL_ACCESS_TOKEN must be set (environment or .env) with a valid token to run setup.'']))
     \<and> (\<forall>e. GetUserFromToken (Inl e) \<in> set log \<longrightarrow>
            (\<exists>files res.
               log = [EnsureGitHubDirs (Inr ()), CopySetupFiles (Inr files),
                      HasValidSetupToken (Inr True), GetUserFromToken (Inl e)]
               \<and> results = [res] \<and> \<not> success res
               \<and> errors res = Some [''No se pudo verificar el acceso a GitHub: ''
                                       @ interpolate e]))
     \<and> (\<forall>e. CopySetupFiles (Inl e) \<in> set log \<longrightarrow>
            (\<exists>res.
               log = [EnsureGitHubDirs (Inr ()), CopySetupFiles (Inl e)]
               \<and> results = [res] \<and> \<not> success res
               \<and> errors res = Some [''Error ejecutando setup inicial: '' @ interpolate e]))"
proof -
  note paths = invoke_InitialSetup_paths [OF run]
  have access: "\<forall>user. GetUserFromToken (Inr user) \<in> set log \<longrightarrow>
            (\<exists>files l p t res.
               log = [EnsureGitHubDirs (Inr ()), CopySetupFiles (Inr files),
                      HasValidSetupToken (Inr True), GetUserFromToken (Inr user),
                      EnsureLabels l, EnsureProgressLabels p, EnsureIssueTypes t]
               \<and> results = [res]
               \<and> accumulatedErrors res
                    = stageErrors (EnsureLabels l) @ stageErrors (EnsureProgressLabels p)
                        @ stageErrors (EnsureIssueTypes t)
               \<and> (success res \<longleftrightarrow> accumulatedErrors res = []))"
    using paths by (elim disjE exE conjE) simp_all
  have gate: "HasValidSetupToken (Inr False) \<in> set log \<longrightarrow>
            (\<exists>files res.
               log = [EnsureGitHubDirs (Inr ()), CopySetupFiles (Inr files),
                      HasValidSetupToken (Inr False)]
               \<and> results = [res] \<and> \<not> success res
               \<and> errors res = Some [''PERSONAL_ACCESS_TOKEN must be set (environment or .env) with a valid token to run setup.''])"
    using paths by (elim disjE exE conjE) simp_all
  have denied: "\<forall>e. GetUserFromToken (Inl e) \<in> set log \<longrightarrow>
            (\<exists>files res.
               log = [EnsureGitHubDirs (Inr ()), CopySetupFiles (Inr files),
                      HasValidSetupToken (Inr True), GetUserFromToken (Inl e)]
               \<and> results = [res] \<and> \<not> success res
               \<and> errors res = Some [''No se pudo verificar el acceso a GitHub: ''
                                       @ interpolate e])"
    using paths by (elim disjE exE conjE) simp_all
  have copy: "\<forall>e. CopySetupFiles (Inl e) \<in> set log \<longrightarrow>
            (\<exists>res.
               log = [EnsureGitHubDirs (Inr ()), CopySetupFiles (Inl e)]
               \<and> results = [res] \<and> \<not> success res
               \<and> errors res = Some [''Error ejecutando setup inicial: '' @ interpolate e])"
    using paths by (elim disjE exE conjE) simp_all
  from access gate denied copy show ?thesis by blast
qed


text \<open>
  The theorem at a run where the token is valid and the access check passes, ensuring the
  labels reports an error and ensuring the progress labels throws: all seven calls are
  made and both errors are in the result.
\<close>

theorem setup_stage_failures_witness:
  "GetUserFromToken (Inr ''test-user'')
     \<in> set (snd (snd (invoke_InitialSetup
          (scriptedEnv twoCopied True (Inr ''test-user'') labelsFail progressThrows typesExist)
          twoBoards ((), []))))
   \<and> snd (snd (invoke_InitialSetup
          (scriptedEnv twoCopied True (Inr ''test-user'') labelsFail progressThrows typesExist)
          twoBoards ((), [])))
       = [EnsureGitHubDirs (Inr ()), CopySetupFiles twoCopied, HasValidSetupToken (Inr True),
          GetUserFromToken (Inr ''test-user''), EnsureLabels labelsFail,
          EnsureProgressLabels progressThrows, EnsureIssueTypes typesExist]
   \<and> accumulatedErrors (hd (fst (invoke_InitialSetup
          (scriptedEnv twoCopied True (Inr ''test-user'') labelsFail progressThrows typesExist)
          twoBoards ((), []))))
       = [''Label error'', ''Error asegurando progress labels: Error: progress labels failed'']
   \<and> \<not> success (hd (fst (invoke_InitialSetup
          (scriptedEnv twoCopied True (Inr ''test-user'') labelsFail progressThrows typesExist)
          twoBoards ((), []))))"
proof -
  let ?run = "invoke_InitialSetup
          (scriptedEnv twoCopied True (Inr ''test-user'') labelsFail progressThrows typesExist)
          twoBoards ((), [])"
  have run: "?run = (fst ?run, (fst (snd ?run), snd (snd ?run)))"
    by (simp add: prod_eq_iff)
  have log: "snd (snd ?run)
       = [EnsureGitHubDirs (Inr ()), CopySetupFiles twoCopied, HasValidSetupToken (Inr True),
          GetUserFromToken (Inr ''test-user''), EnsureLabels labelsFail,
          EnsureProgressLabels progressThrows, EnsureIssueTypes typesExist]"
    by code_simp
  then have verified: "GetUserFromToken (Inr ''test-user'') \<in> set (snd (snd ?run))"
    by simp
  have errs: "stageErrors (EnsureLabels labelsFail) @ stageErrors (EnsureProgressLabels progressThrows)
                        @ stageErrors (EnsureIssueTypes typesExist)
     = [''Label error'', ''Error asegurando progress labels: Error: progress labels failed'']"
    by (simp add: labelsFail_def progressThrows_def typesExist_def newError_def)
  from setup_stage_failures [OF run] verified obtain files l p t res where res:
    "snd (snd ?run) = [EnsureGitHubDirs (Inr ()), CopySetupFiles (Inr files),
                      HasValidSetupToken (Inr True), GetUserFromToken (Inr ''test-user''),
                      EnsureLabels l, EnsureProgressLabels p, EnsureIssueTypes t]"
    "fst ?run = [res]"
    "accumulatedErrors res
                    = stageErrors (EnsureLabels l) @ stageErrors (EnsureProgressLabels p)
                        @ stageErrors (EnsureIssueTypes t)"
    "success res \<longleftrightarrow> accumulatedErrors res = []"
    by blast
  from res(1) log have "l = labelsFail" "p = progressThrows" "t = typesExist" by simp_all
  with res(2,3,4) errs have "accumulatedErrors (hd (fst ?run))
       = [''Label error'', ''Error asegurando progress labels: Error: progress labels failed'']"
    "\<not> success (hd (fst ?run))"
    by simp_all
  with verified log show ?thesis by blast
qed

text \<open>
  Against claim C3 as stated. With a valid token and a GitHub access check that fails, the
  run ends after four calls, with a single failure result: the token gate is not the only
  stage whose failure aborts the sequence. With a copy of the setup files that throws, the
  run ends after two calls: the failure of that stage does prevent the later stages.
\<close>

theorem setup_abort_counterexample:
  "snd (snd (invoke_InitialSetup
          (scriptedEnv twoCopied True (Inl (newError None ''Invalid token''))
             labelsExist labelsExist typesExist)
          twoBoards ((), [])))
     = [EnsureGitHubDirs (Inr ()), CopySetupFiles twoCopied, HasValidSetupToken (Inr True),
        GetUserFromToken (Inl (newError None ''Invalid token''))]
   \<and> length (fst (invoke_InitialSetup
          (scriptedEnv twoCopied True (Inl (newError None ''Invalid token''))
             labelsExist labelsExist typesExist)
          twoBoards ((), []))) = 1
   \<and> \<not> success (hd (fst (invoke_InitialSetup
          (scriptedEnv twoCopied True (Inl (newError None ''Invalid token''))
             labelsExist labelsExist typesExist)
          twoBoards ((), []))))
   \<and> snd (snd (invoke_InitialSetup
          (scriptedEnv (Inl (newError None ''EACCES'')) True (Inr ''test-user'')
             labelsExist labelsExist typesExist)
          twoBoards ((), [])))
     = [EnsureGitHubDirs (Inr ()), CopySetupFiles (Inl (newError None ''EACCES''))]
   \<and> \<not> success (hd (fst (invoke_InitialSetup
          (scriptedEnv (Inl (newError None ''EACCES'')) True (Inr ''test-user'')
             labelsExist labelsExist typesExist)
          twoBoards ((), []))))"
  by code_simp

section \<open>Properties of the label and issue-type reconciliation\<close>

text \<open>
  Claim C1. \<open>ensureLabel\<close>: an empty or whitespace-only name returns
  \<^verbatim>\<open>{created:false, existed:false}\<close> and makes no call at all; a name with a
  case-insensitive match in the live list returns \<^verbatim>\<open>{created:false, existed:true}\<close>
  after the list call alone, without a call of the create endpoint; otherwise the label is
  created and the result is \<^verbatim>\<open>{created:true, existed:false}\<close>, except that an
  "already exists" error (HTTP 422) of the creation gives
  \<^verbatim>\<open>{created:false, existed:true}\<close> as a returned value, not as an error.
\<close>

theorem ensureLabel_contract:
  "(trim name = [] \<longrightarrow>
      ensureLabel api ow rp name color description tk st
        = (Inr \<lparr> ensure_created = False, existed = False \<rparr>, st))
   \<and> (trim name \<noteq> [] \<and> listLabelsForRepo api ow rp tk (fst st) = (Inr existingLabels, sl)
        \<and> (\<exists>l \<in> set existingLabels. toLowerCase (label_name l) = toLowerCase name) \<longrightarrow>
      ensureLabel api ow rp name color description tk st
        = (Inr \<lparr> ensure_created = False, existed = True \<rparr>,
           (sl, snd st @ [ListLabelsForRepo ow rp tk])))
   \<and> (trim name \<noteq> [] \<and> listLabelsForRepo api ow rp tk (fst st) = (Inr existingLabels, sl)
        \<and> \<not> (\<exists>l \<in> set existingLabels. toLowerCase (label_name l) = toLowerCase name)
        \<and> createLabel api ow rp name color description tk sl = (Inr u, sc) \<longrightarrow>
      ensureLabel api ow rp name color description tk st
        = (Inr \<lparr> ensure_created = True, existed = False \<rparr>,
           (sc, snd st @ [ListLabelsForRepo ow rp tk,
                          CreateLabel ow rp name color description tk])))
   \<and> (trim name \<noteq> [] \<and> listLabelsForRepo api ow rp tk (fst st) = (Inr existingLabels, sl)
        \<and> \<not> (\<exists>l \<in> set existingLabels. toLowerCase (label_name l) = toLowerCase name)
        \<and> createLabel api ow rp name color description tk sl = (Inl error, sc)
        \<and> isAlreadyExists error \<longrightarrow>
      ensureLabel api ow rp name color description tk st
        = (Inr \<lparr> ensure_created = False, existed = True \<rparr>,
           (sc, snd st @ [ListLabelsForRepo ow rp tk,
                          CreateLabel ow rp name color description tk])))"
  by (simp add: ensureLabel_def perform_def list_ex_iff)

text \<open>
  The theorem on a repository that has the label \<^verbatim>\<open>Bug\<close>: a name of blanks, the
  name \<^verbatim>\<open>BUG\<close>, a new name, and the name \<^verbatim>\<open>Bug\<close> through a list endpoint that
  does not show it, so that the creation fails with status 422.
\<close>

theorem ensureLabel_contract_witness:
  "ensureLabel storeApi ''o'' ''r'' ''  '' ''abc'' ''d'' ''t'' (bugOnly, [])
     = (Inr \<lparr> ensure_created = False, existed = False \<rparr>, (bugOnly, []))
   \<and> ensureLabel storeApi ''o'' ''r'' ''BUG'' ''abc'' ''d'' ''t'' (bugOnly, [])
     = (Inr \<lparr> ensure_created = False, existed = True \<rparr>,
        (bugOnly, [ListLabelsForRepo ''o'' ''r'' ''t'']))
   \<and> ensureLabel storeApi ''o'' ''r'' ''new'' ''abc'' ''d'' ''t'' (bugOnly, [])
     = (Inr \<lparr> ensure_created = True, existed = False \<rparr>,
        (bugOnly\<lparr> repoLabels := repoLabels bugOnly
                  @ [\<lparr> label_name = ''new'', label_color = ''abc'',
                       label_description = Some ''d'' \<rparr>] \<rparr>,
         [ListLabelsForRepo ''o'' ''r'' ''t'',
          CreateLabel ''o'' ''r'' ''new'' ''abc'' ''d'' ''t'']))
   \<and> ensureLabel staleApi ''o'' ''r'' ''Bug'' ''abc'' ''d'' ''t'' (bugOnly, [])
     = (Inr \<lparr> ensure_created = False, existed = True \<rparr>,
        (bugOnly, [ListLabelsForRepo ''o'' ''r'' ''t'',
                   CreateLabel ''o'' ''r'' ''Bug'' ''abc'' ''d'' ''t'']))"
proof -
  have blank: "trim ''  '' = []" by code_simp
  have named: "trim ''BUG'' \<noteq> []" "trim ''new'' \<noteq> []" "trim ''Bug'' \<noteq> []" by code_simp+
  have listed: "listLabelsForRepo storeApi ''o'' ''r'' ''t'' (fst (bugOnly, []))
                  = (Inr (repoLabels bugOnly), bugOnly)"
    by (simp add: storeApi_def)
  have stale: "listLabelsForRepo staleApi ''o'' ''r'' ''t'' (fst (bugOnly, [])) = (Inr [], bugOnly)"
    by (simp add: staleApi_def)
  have match: "\<exists>l \<in> set (repoLabels bugOnly). toLowerCase (label_name l) = toLowerCase ''BUG''"
    by code_simp
  have fresh: "\<not> (\<exists>l \<in> set (repoLabels bugOnly). toLowerCase (label_name l) = toLowerCase ''new'')"
    by code_simp
  have unseen: "\<not> (\<exists>l \<in> set ([] :: label_info list). toLowerCase (label_name l) = toLowerCase ''Bug'')"
    by simp
  have made: "createLabel storeApi ''o'' ''r'' ''new'' ''abc'' ''d'' ''t'' bugOnly
      = (Inr (), bugOnly\<lparr> repoLabels := repoLabels bugOnly
                  @ [\<lparr> label_name = ''new'', label_color = ''abc'',
                       label_description = Some ''d'' \<rparr>] \<rparr>)"
    by (simp add: storeApi_def bugOnly_def)
  have refused: "createLabel staleApi ''o'' ''r'' ''Bug'' ''abc'' ''d'' ''t'' bugOnly
      = (Inl (newError (Some 422) ''already exists''), bugOnly)"
    by (simp add: staleApi_def storeApi_def bugOnly_def)
  have exists: "isAlreadyExists (newError (Some 422) ''already exists'')"
    by (simp add: newError_def)
  note c = ensureLabel_contract [where ow = "''o''" and rp = "''r''" and tk = "''t''"
      and color = "''abc''" and description = "''d''" and st = "(bugOnly, [])" and sl = bugOnly]
  from c [where name = "''  ''" and api = storeApi] blank
  have w1: "ensureLabel storeApi ''o'' ''r'' ''  '' ''abc'' ''d'' ''t'' (bugOnly, [])
     = (Inr \<lparr> ensure_created = False, existed = False \<rparr>, (bugOnly, []))"
    by blast
  from c [where name = "''BUG''" and api = storeApi and existingLabels = "repoLabels bugOnly"]
    named(1) listed match
  have w2: "ensureLabel storeApi ''o'' ''r'' ''BUG'' ''abc'' ''d'' ''t'' (bugOnly, [])
     = (Inr \<lparr> ensure_created = False, existed = True \<rparr>,
        (bugOnly, [ListLabelsForRepo ''o'' ''r'' ''t'']))"
    by simp
  from c [where name = "''new''" and api = storeApi and existingLabels = "repoLabels bugOnly"
      and u = "()" and sc = "bugOnly\<lparr> repoLabels := repoLabels bugOnly
                  @ [\<lparr> label_name = ''new'', label_color = ''abc'',
                       label_description = Some ''d'' \<rparr>] \<rparr>"]
    named(2) listed fresh made
  have w3: "ensureLabel storeApi ''o'' ''r'' ''new'' ''abc'' ''d'' ''t'' (bugOnly, [])
     = (Inr \<lparr> ensure_created = True, existed = False \<rparr>,
        (bugOnly\<lparr> repoLabels := repoLabels bugOnly
                  @ [\<lparr> label_name = ''new'', label_color = ''abc'',
                       label_description = Some ''d'' \<rparr>] \<rparr>,
         [ListLabelsForRepo ''o'' ''r'' ''t'',
          CreateLabel ''o'' ''r'' ''new'' ''abc'' ''d'' ''t'']))"
    by simp
  from c [where name = "''Bug''" and api = staleApi and existingLabels = "[]"
      and sc = bugOnly and error = "newError (Some 422) ''already exists''"]
    named(3) stale unseen refused exists
  have w4: "ensureLabel staleApi ''o'' ''r'' ''Bug'' ''abc'' ''d'' ''t'' (bugOnly, [])
     = (Inr \<lparr> ensure_created = False, existed = True \<rparr>,
        (bugOnly, [ListLabelsForRepo ''o'' ''r'' ''t'',
                   CreateLabel ''o'' ''r'' ''Bug'' ''abc'' ''d'' ''t'']))"
    by simp
  from w1 w2 w3 w4 show ?thesis by blast
qed


lemma natToString_digits: "natToString n \<noteq> [] \<and> list_all isDigit (natToString n)"
proof (induction n rule: natToString.induct)
  case (1 n)
  have digit: "isDigit (digitChar d)" if "d < 10" for d
    using that by (simp add: isDigit_def digitChar_def)
  show ?case
  proof (cases "n < 10")
    case True
    then show ?thesis using digit [of n] by (simp add: natToString.simps [of n])
  next
    case False
    with 1 have "natToString (n div 10) \<noteq> [] \<and> list_all isDigit (natToString (n div 10))"
      by simp
    moreover have "isDigit (digitChar (n mod 10))" by (rule digit) simp
    ultimately show ?thesis using False by (simp add: natToString.simps [of n])
  qed
qed

lemma percentage_label_matches:
  "0 \<le> percentage \<Longrightarrow> PROGRESS_LABEL_PATTERN (numberToString percentage @ ''%'')"
  using natToString_digits [of "nat percentage"]
  by (simp add: PROGRESS_LABEL_PATTERN_def numberToString_def butlast_append)

text \<open>
  Claim C5. When the fetch of the issue's labels returns \<open>currentLabels\<close>,
  \<open>setProgressLabel\<close> makes exactly two calls, the fetch and then one write of the whole
  label set; the labels written are the current labels that do not match
  \<^verbatim>\<open>^\d+%$\<close>, in their order, followed by the new percentage label, and the outcome
  is the outcome of the write. For the current labels \<^verbatim>\<open>['50%','feature']\<close> and the
  percentage 75 the one write has the labels \<^verbatim>\<open>['feature','75%']\<close>.
\<close>

theorem setProgressLabel_write:
  "(getLabels api ow rp issue tk s = (Inr currentLabels, sf)
      \<and> written = filter (\<lambda>l. \<not> PROGRESS_LABEL_PATTERN l) currentLabels
                    @ [numberToString percentage @ ''%''] \<longrightarrow>
      setProgressLabel api ow rp issue percentage tk (s, log)
        = (fst (setLabels api ow rp issue written tk sf),
           (snd (setLabels api ow rp issue written tk sf),
            log @ [GetLabels ow rp issue tk, SetLabels ow rp issue written tk]))
      \<and> filter (\<lambda>l. \<not> PROGRESS_LABEL_PATTERN l) (butlast written)
           = filter (\<lambda>l. \<not> PROGRESS_LABEL_PATTERN l) currentLabels
      \<and> list_all (\<lambda>l. \<not> PROGRESS_LABEL_PATTERN l) (butlast written)
      \<and> last written = numberToString percentage @ ''%''
      \<and> (0 \<le> percentage \<longrightarrow> filter PROGRESS_LABEL_PATTERN written
                                  = [numberToString percentage @ ''%'']))
   \<and> (getLabels api ow rp issue tk s = (Inr [''50%'', ''feature''], sf) \<longrightarrow>
        snd (snd (setProgressLabel api ow rp issue 75 tk (s, [])))
          = [GetLabels ow rp issue tk, SetLabels ow rp issue [''feature'', ''75%''] tk])"
proof -
  have general: "setProgressLabel api ow rp issue percentage tk (s, log)
        = (fst (setLabels api ow rp issue written tk sf),
           (snd (setLabels api ow rp issue written tk sf),
            log @ [GetLabels ow rp issue tk, SetLabels ow rp issue written tk]))
      \<and> filter (\<lambda>l. \<not> PROGRESS_LABEL_PATTERN l) (butlast written)
           = filter (\<lambda>l. \<not> PROGRESS_LABEL_PATTERN l) currentLabels
      \<and> list_all (\<lambda>l. \<not> PROGRESS_LABEL_PATTERN l) (butlast written)
      \<and> last written = numberToString percentage @ ''%''
      \<and> (0 \<le> percentage \<longrightarrow> filter PROGRESS_LABEL_PATTERN written
                                  = [numberToString percentage @ ''%''])"
    if fetch: "getLabels api ow rp issue tk s = (Inr currentLabels, sf)"
      and written: "written = filter (\<lambda>l. \<not> PROGRESS_LABEL_PATTERN l) currentLabels
                    @ [numberToString percentage @ ''%'']"
  proof -
    have run: "setProgressLabel api ow rp issue percentage tk (s, log)
        = (fst (setLabels api ow rp issue written tk sf),
           (snd (setLabels api ow rp issue written tk sf),
            log @ [GetLabels ow rp issue tk, SetLabels ow rp issue written tk]))"
      using fetch written
      by (simp add: setProgressLabel_def perform_def Let_def split: prod.splits)
    have kept: "filter (\<lambda>l. \<not> PROGRESS_LABEL_PATTERN l) (butlast written)
           = filter (\<lambda>l. \<not> PROGRESS_LABEL_PATTERN l) currentLabels"
      unfolding written by (simp add: butlast_append)
    have gone: "list_all (\<lambda>l. \<not> PROGRESS_LABEL_PATTERN l) (butlast written)"
      unfolding written by (simp add: butlast_append list_all_iff)
    have new: "last written = numberToString percentage @ ''%''"
      unfolding written by simp
    have only: "0 \<le> percentage \<longrightarrow> filter PROGRESS_LABEL_PATTERN written
                                  = [numberToString percentage @ ''%'']"
      unfolding written using percentage_label_matches [of percentage]
      by (simp add: filter_empty_conv)
    from run kept gone new only show ?thesis by blast
  qed
  have seventy_five: "numberToString 75 @ ''%'' = ''75%''" by code_simp
  have old: "PROGRESS_LABEL_PATTERN ''50%''" "\<not> PROGRESS_LABEL_PATTERN ''feature''"
    by code_simp+
  have example: "snd (snd (setProgressLabel api ow rp issue 75 tk (s, [])))
          = [GetLabels ow rp issue tk, SetLabels ow rp issue [''feature'', ''75%''] tk]"
    if fetch: "getLabels api ow rp issue tk s = (Inr [''50%'', ''feature''], sf)"
    using fetch old seventy_five
    by (simp add: setProgressLabel_def perform_def Let_def split: prod.splits)
  from general example show ?thesis by blast
qed

text \<open>
  The theorem on the repository whose issue has the labels \<^verbatim>\<open>50%\<close> and
  \<^verbatim>\<open>feature\<close>, with the percentage 75.
\<close>

theorem setProgressLabel_write_witness:
  "getLabels storeApi ''o'' ''r'' 1 ''t'' bugOnly = (Inr [''50%'', ''feature''], bugOnly)
   \<and> setProgressLabel storeApi ''o'' ''r'' 1 75 ''t'' (bugOnly, [])
       = (Inr (), (bugOnly\<lparr> issueLabels := [''feature'', ''75%''] \<rparr>,
            [GetLabels ''o'' ''r'' 1 ''t'', SetLabels ''o'' ''r'' 1 [''feature'', ''75%''] ''t'']))"
proof -
  have fetch: "getLabels storeApi ''o'' ''r'' 1 ''t'' bugOnly = (Inr [''50%'', ''feature''], bugOnly)"
    by (simp add: storeApi_def bugOnly_def)
  have written: "[''feature'', ''75%'']
      = filter (\<lambda>l. \<not> PROGRESS_LABEL_PATTERN l) [''50%'', ''feature''] @ [numberToString 75 @ ''%'']"
    by code_simp
  have "write": "setLabels storeApi ''o'' ''r'' 1 [''feature'', ''75%''] ''t'' bugOnly
      = (Inr (), bugOnly\<lparr> issueLabels := [''feature'', ''75%''] \<rparr>)"
    by (simp add: storeApi_def)
  note general = setProgressLabel_write [where api = storeApi and ow = "''o''" and rp = "''r''"
      and issue = 1 and tk = "''t''" and s = bugOnly and sf = bugOnly
      and currentLabels = "[''50%'', ''feature'']" and written = "[''feature'', ''75%'']"
      and percentage = 75 and log = "[]", THEN conjunct1]
  from general fetch written
  have "setProgressLabel storeApi ''o'' ''r'' 1 75 ''t'' (bugOnly, [])
        = (fst (setLabels storeApi ''o'' ''r'' 1 [''feature'', ''75%''] ''t'' bugOnly),
           (snd (setLabels storeApi ''o'' ''r'' 1 [''feature'', ''75%''] ''t'' bugOnly),
            [] @ [GetLabels ''o'' ''r'' 1 ''t'',
                  SetLabels ''o'' ''r'' 1 [''feature'', ''75%''] ''t'']))"
    by blast
  then have "setProgressLabel storeApi ''o'' ''r'' 1 75 ''t'' (bugOnly, [])
       = (Inr (), (bugOnly\<lparr> issueLabels := [''feature'', ''75%''] \<rparr>,
            [GetLabels ''o'' ''r'' 1 ''t'', SetLabels ''o'' ''r'' 1 [''feature'', ''75%''] ''t'']))"
    by (simp only: "write" fst_conv snd_conv append_Nil)
  with fetch show ?thesis by blast
qed

lemma ensureEach_length: "ensureEach ensure es st = (outs, st') \<Longrightarrow> length outs = length es"
  by (induction es arbitrary: st outs) (auto split: prod.splits)

text \<open>The loop with its three accumulators computes the counts of the outcomes.\<close>

lemma ensureBatch_each:
  "ensureEach ensure es st = (outs, st') \<Longrightarrow>
   ensureBatch ensure es c x errs st
     = (\<lparr> created = c + createdOf outs, existing = x + existingOf outs,
          batch_errors = errs @ map interpolate (thrownOf outs) \<rparr>, st')"
proof (induction es arbitrary: st outs c x errs st')
  case Nil
  then show ?case by (simp add: createdOf_def existingOf_def thrownOf_def)
next
  case (Cons e es)
  obtain out st1 where first: "ensure e st = (out, st1)" by (metis surj_pair)
  obtain rest st2 where others: "ensureEach ensure es st1 = (rest, st2)" by (metis surj_pair)
  from Cons.prems first others have outs: "outs = out # rest" and st': "st' = st2"
    by simp_all
  show ?case
  proof (cases out)
    case (Inl error)
    with first Cons.IH [OF others, of c x "errs @ [interpolate error]"] show ?thesis
      unfolding outs st' by (simp add: createdOf_def existingOf_def thrownOf_def)
  next
    case (Inr result)
    with first Cons.IH [OF others, of "if ensure_created result then c + 1 else c"
        "if existed result then x + 1 else x" errs] show ?thesis
      unfolding outs st' by (simp add: createdOf_def existingOf_def thrownOf_def)
  qed
qed

text \<open>
  Claim C6. \<open>ensureLabels\<close> and \<open>ensureIssueTypes\<close> ensure every entry of the batch,
  in order, each in the state the one before left, also after an entry that threw: with
  \<open>outs\<close> the outcomes of the entries, \<^verbatim>\<open>created\<close> and \<^verbatim>\<open>existing\<close> count the
  entries that returned created and existed, and \<^verbatim>\<open>errors\<close> holds the string form of
  each thrown error, in order; so when exactly one entry throws, \<^verbatim>\<open>errors\<close> has one
  message, and the counts are those of the other entries.
\<close>

theorem ensure_batches_isolate_errors:
  "(ensureEach (\<lambda>e. ensureLabel api ow rp (entry_name e) (entry_color e)
                      (entry_description e) tk) entries st = (outs, st') \<longrightarrow>
      length outs = length entries
      \<and> ensureLabels api ow rp entries tk st
           = (\<lparr> created = createdOf outs, existing = existingOf outs,
                batch_errors = map interpolate (thrownOf outs) \<rparr>, st')
      \<and> (length (thrownOf outs) = 1 \<longrightarrow>
            1 \<le> length (batch_errors (fst (ensureLabels api ow rp entries tk st)))))
   \<and> (ensureEach (\<lambda>e. ensureIssueType api organization (entry_name e) (entry_description e)
                      (entry_color e) tk) entries st = (outs, st') \<longrightarrow>
      length outs = length entries
      \<and> ensureIssueTypes api organization entries tk st
           = (\<lparr> created = createdOf outs, existing = existingOf outs,
                batch_errors = map interpolate (thrownOf outs) \<rparr>, st')
      \<and> (length (thrownOf outs) = 1 \<longrightarrow>
            1 \<le> length (batch_errors (fst (ensureIssueTypes api organization entries tk st)))))"
proof -
  have labels: "length outs = length entries
      \<and> ensureLabels api ow rp entries tk st
           = (\<lparr> created = createdOf outs, existing = existingOf outs,
                batch_errors = map interpolate (thrownOf outs) \<rparr>, st')
      \<and> (length (thrownOf outs) = 1 \<longrightarrow>
            1 \<le> length (batch_errors (fst (ensureLabels api ow rp entries tk st))))"
    if each: "ensureEach (\<lambda>e. ensureLabel api ow rp (entry_name e) (entry_color e)
                      (entry_description e) tk) entries st = (outs, st')"
    using ensureEach_length [OF each] ensureBatch_each [OF each, of 0 0 "[]"]
    by (simp add: ensureLabels_def)
  have types: "length outs = length entries
      \<and> ensureIssueTypes api organization entries tk st
           = (\<lparr> created = createdOf outs, existing = existingOf outs,
                batch_errors = map interpolate (thrownOf outs) \<rparr>, st')
      \<and> (length (thrownOf outs) = 1 \<longrightarrow>
            1 \<le> length (batch_errors (fst (ensureIssueTypes api organization entries tk st))))"
    if each: "ensureEach (\<lambda>e. ensureIssueType api organization (entry_name e)
                      (entry_description e) (entry_color e) tk) entries st = (outs, st')"
    using ensureEach_length [OF each] ensureBatch_each [OF each, of 0 0 "[]"]
    by (simp add: ensureIssueTypes_def)
  from labels types show ?thesis by blast
qed

text \<open>
  The theorem on a batch of three labels of which the first exists, the creation of the
  second throws and the third is created.
\<close>

theorem ensure_batches_isolate_errors_witness:
  "length (thrownOf (fst (ensureEach (\<lambda>e. ensureLabel storeApi ''o'' ''r'' (entry_name e)
              (entry_color e) (entry_description e) ''t'') threeEntries (bugOnly, [])))) = 1
   \<and> fst (ensureLabels storeApi ''o'' ''r'' threeEntries ''t'' (bugOnly, []))
       = \<lparr> created = 1, existing = 1, batch_errors = [''Error: Server error''] \<rparr>
   \<and> length (fst (ensureEach (\<lambda>e. ensureIssueType storeApi ''org'' (entry_name e)
              (entry_description e) (entry_color e) ''t'') threeEntries (bugOnly, []))) = 3
   \<and> fst (ensureIssueTypes storeApi ''org'' threeEntries ''t'' (bugOnly, []))
       = \<lparr> created = 3, existing = 0, batch_errors = [] \<rparr>"
proof -
  let ?each = "ensureEach (\<lambda>e. ensureLabel storeApi ''o'' ''r'' (entry_name e)
              (entry_color e) (entry_description e) ''t'') threeEntries (bugOnly, [])"
  let ?types = "ensureEach (\<lambda>e. ensureIssueType storeApi ''org'' (entry_name e)
              (entry_description e) (entry_color e) ''t'') threeEntries (bugOnly, [])"
  have each: "?each = (fst ?each, snd ?each)" by simp
  have types: "?types = (fst ?types, snd ?types)" by simp
  have one: "length (thrownOf (fst ?each)) = 1" by code_simp
  have counts: "createdOf (fst ?each) = 1" "existingOf (fst ?each) = 1"
    "map interpolate (thrownOf (fst ?each)) = [''Error: Server error'']"
    by code_simp+
  have type_counts: "createdOf (fst ?types) = 3" "existingOf (fst ?types) = 0"
    "map interpolate (thrownOf (fst ?types)) = []" "length (fst ?types) = 3"
    by code_simp+
  note batch = ensure_batches_isolate_errors [where api = storeApi and entries = threeEntries
      and tk = "''t''" and st = "(bugOnly, [])"]
  from batch [where ow = "''o''" and rp = "''r''" and outs = "fst ?each" and st' = "snd ?each"]
    each counts
  have labels: "fst (ensureLabels storeApi ''o'' ''r'' threeEntries ''t'' (bugOnly, []))
       = \<lparr> created = 1, existing = 1, batch_errors = [''Error: Server error''] \<rparr>"
    by simp
  from batch [where organization = "''org''" and outs = "fst ?types" and st' = "snd ?types"]
    types type_counts
  have issue_types: "fst (ensureIssueTypes storeApi ''org'' threeEntries ''t'' (bugOnly, []))
       = \<lparr> created = 3, existing = 0, batch_errors = [] \<rparr>"
    by simp
  from one labels type_counts(4) issue_types show ?thesis by blast
qed

end
